theory Spec2Isabelle
  imports Main "HOL-Library.Word"
begin

section \<open>Strings as the handlers use them\<close>

text \<open>
  A JavaScript string is a sequence of code units; the model keeps the code units below
  256, so a string is a \<open>char list\<close> and \<open>s.length\<close> is \<open>length s\<close>. A request
  field or query parameter is \<open>None\<close> when it is missing (\<open>undefined\<close>) and
  \<open>Some s\<close> when it is the string \<open>s\<close>.
\<close>

type_synonym jsvalue = "string option"

text \<open>\<open>!v\<close> is false exactly for a non-empty string.\<close>

definition truthy :: "jsvalue \<Rightarrow> bool" where
  "truthy v = (case v of None \<Rightarrow> False | Some s \<Rightarrow> s \<noteq> [])"

text \<open>
  \<open>String.prototype.trim\<close> strips white space and line terminators from both ends:
  TAB, LF, VT, FF, CR, SP and NBSP among the code units below 256.
\<close>

definition isWhiteSpace :: "char \<Rightarrow> bool" where
  "isWhiteSpace c = (of_char c \<in> {9, 10, 11, 12, 13, 32, 160 :: nat})"

definition trim :: "string \<Rightarrow> string" where
  "trim s = rev (dropWhile isWhiteSpace (rev (dropWhile isWhiteSpace s)))"

text \<open>
  \<open>String.prototype.toLowerCase\<close> on code units below 256: \<open>A\<close>..\<open>Z\<close> and the
  accented capitals 0xC0..0xDE (but not the multiplication sign 0xD7) move up by 32.
\<close>

definition lowerChar :: "char \<Rightarrow> char" where
  "lowerChar c =
     (let n = (of_char c :: nat)
      in if (65 \<le> n \<and> n \<le> 90) \<or> (192 \<le> n \<and> n \<le> 222 \<and> n \<noteq> 215)
         then char_of (n + 32) else c)"

definition toLowerCase :: "string \<Rightarrow> string" where
  "toLowerCase s = map lowerChar s"

subsection \<open>The regular expression \<open>/.+@.+\\..+/\<close>\<close>

text \<open>
  The only regular expression of the program is a sequence of items, each a single
  character class or a character class under \<open>+\<close>. The class \<open>.\<close> is every
  character but a line terminator (LF and CR below 256). \<open>test\<close> searches: it
  succeeds when the pattern matches at some position of the string.
\<close>

datatype atom = AnyChar | Lit char

datatype item = One atom | OneOrMore atom

definition isLineTerminator :: "char \<Rightarrow> bool" where
  "isLineTerminator c = (of_char c \<in> {10, 13 :: nat})"

fun atom_matches :: "atom \<Rightarrow> char \<Rightarrow> bool" where
  "atom_matches AnyChar c = (\<not> isLineTerminator c)"
| "atom_matches (Lit d) c = (c = d)"

fun match_here :: "item list \<Rightarrow> string \<Rightarrow> bool" where
  "match_here [] s = True"
| "match_here (One a # r) [] = False"
| "match_here (One a # r) (c # s) = (atom_matches a c \<and> match_here r s)"
| "match_here (OneOrMore a # r) [] = False"
| "match_here (OneOrMore a # r) (c # s) =
     (atom_matches a c \<and> (match_here (OneOrMore a # r) s \<or> match_here r s))"

fun regex_test :: "item list \<Rightarrow> string \<Rightarrow> bool" where
  "regex_test r [] = match_here r []"
| "regex_test r (c # s) = (match_here r (c # s) \<or> regex_test r s)"

definition email_pattern :: "item list" where
  "email_pattern =
     [OneOrMore AnyChar, One (Lit (CHR ''@'')), OneOrMore AnyChar,
      One (Lit (CHR ''.'')), OneOrMore AnyChar]"

subsection \<open>\<open>crypto.randomBytes(n).toString('hex')\<close>\<close>

text \<open>
  The entropy source is a parameter: byte \<open>i\<close> of the next request for random bytes.
  \<open>toString('hex')\<close> writes each byte as two lower-case hexadecimal digits.
\<close>

definition hexDigit :: "nat \<Rightarrow> char" where
  "hexDigit n = (if n < 10 then char_of (48 + n) else char_of (87 + n))"

definition hexByte :: "8 word \<Rightarrow> string" where
  "hexByte b = [hexDigit (unat b div 16), hexDigit (unat b mod 16)]"

definition toString_hex :: "8 word list \<Rightarrow> string" where
  "toString_hex bs = concat (map hexByte bs)"

definition isHexDigit :: "char \<Rightarrow> bool" where
  "isHexDigit c = (c \<in> set ''0123456789abcdef'')"

section \<open>The user entity (\<open>models/User.js\<close>)\<close>

text \<open>
  A stored user document. \<open>verificationToken\<close> is \<open>None\<close> when the field is absent.
  The collection is the list of stored documents in insertion order; documents are never
  deleted, so the position of a document identifies it, as \<open>_id\<close> does.
\<close>

record user =
  fullName :: string
  email :: string
  password :: string
  isVerified :: bool
  verificationToken :: "string option"
  createdAt :: nat

type_synonym collection = "user list"

text \<open>
  A document in memory: its field values, where it was loaded from (\<open>None\<close> for a
  document made by \<open>new User\<close>) and the paths modified since.
\<close>

record document =
  doc :: user
  stored_at :: "nat option"
  modifiedPaths :: "string list"

definition isModified :: "document \<Rightarrow> string \<Rightarrow> bool" where
  "isModified d p = (p \<in> set (modifiedPaths d))"

text \<open>An error object, with the properties the handlers read.\<close>

datatype error = Error (name: string) (message: string) (code: "nat option") (keyPattern: "string list")

text \<open>
  What the process takes from outside: the environment variables, the entropy source,
  bcrypt (\<open>genSalt rounds\<close> and \<open>hash password salt\<close>), the clock, and the mail
  provider, which answers a message with an error (\<open>Inl\<close>) or with the text of
  \<open>info.response\<close> (\<open>Inr\<close>).
\<close>

record mailOptions =
  mail_from :: string
  mail_to :: string
  subject :: string
  html :: string

record env =
  FRONTEND_URL :: string
  EMAIL_USER :: string
  entropy :: "nat \<Rightarrow> 8 word"
  genSalt :: "nat \<Rightarrow> string"
  hash :: "string \<Rightarrow> string \<Rightarrow> string"
  now :: nat
  sendMail :: "mailOptions \<Rightarrow> string + string"

definition randomBytes :: "env \<Rightarrow> nat \<Rightarrow> 8 word list" where
  "randomBytes e n = map (entropy e) [0..<n]"

subsection \<open>Schema: setters, defaults, validators\<close>

text \<open>
  \<open>new User({fullName, email, password, verificationToken})\<close>: \<open>fullName\<close> is
  trimmed, \<open>email\<close> is lower-cased and trimmed, \<open>isVerified\<close> defaults to false and
  \<open>createdAt\<close> to \<open>Date.now\<close>. The four paths given are modified.
\<close>

definition new_User :: "env \<Rightarrow> string \<Rightarrow> string \<Rightarrow> string \<Rightarrow> string \<Rightarrow> document" where
  "new_User e fn em pw tok =
     \<lparr>doc = \<lparr>fullName = trim fn, email = trim (toLowerCase em), password = pw,
             isVerified = False, verificationToken = Some tok, createdAt = now e\<rparr>,
      stored_at = None,
      modifiedPaths = [''fullName'', ''email'', ''password'', ''verificationToken'']\<rparr>"

text \<open>
  Validation gives at most one error for each path, the \<open>required\<close> validator first,
  in the order of the schema. A string is missing for \<open>required\<close> when it is empty.
\<close>

definition validate :: "user \<Rightarrow> (string \<times> string) list" where
  "validate u =
     (if fullName u = [] then [(''fullName'', ''Full name is required'')] else []) @
     (if email u = [] then [(''email'', ''Email is required'')]
      else if \<not> regex_test email_pattern (email u)
      then [(''email'', ''Please enter a valid email address'')] else []) @
     (if password u = [] then [(''password'', ''Password is required'')]
      else if length (password u) < 8
      then [(''password'', ''Password must be at least 8 characters long'')] else [])"

fun join :: "string \<Rightarrow> string list \<Rightarrow> string" where
  "join sep [] = []"
| "join sep [x] = x"
| "join sep (x # y # ys) = x @ sep @ join sep (y # ys)"

definition ValidationError :: "(string \<times> string) list \<Rightarrow> error" where
  "ValidationError errs =
     Error ''ValidationError''
       (''User validation failed: '' @ join '', '' (map (\<lambda>(p, m). p @ '': '' @ m) errs))
       None []"

text \<open>The server's answer to a write that breaks the unique index on \<open>field\<close>.\<close>

definition DuplicateKey :: "string \<Rightarrow> error" where
  "DuplicateKey field =
     Error ''MongoServerError'' (''E11000 duplicate key error index: '' @ field @ ''_1'')
       (Some 11000) [field]"

definition DocumentNotFoundError :: error where
  "DocumentNotFoundError = Error ''DocumentNotFoundError'' ''No document found'' None []"

text \<open>
  The pre-save hook: a password that was not modified is left alone; a modified one is
  replaced by its bcrypt hash under a fresh salt of 10 rounds.
\<close>

definition pre_save :: "env \<Rightarrow> document \<Rightarrow> document" where
  "pre_save e d =
     (if \<not> isModified d ''password'' then d
      else let salt = genSalt e 10
           in d\<lparr>doc := (doc d)\<lparr>password := hash e (password (doc d)) salt\<rparr>\<rparr>)"

subsection \<open>Storage: unique indexes, \<open>findOne\<close>, \<open>save\<close>\<close>

text \<open>
  The storage layer is Mongoose over MongoDB: the repository calls it and declares the
  schema, and the model gives it the behaviour the schema asks for. \<open>email\<close> has
  a unique index and \<open>verificationToken\<close> a sparse unique index (a document without
  the field is not in it). A write is checked against the other documents, the
  \<open>email\<close> index first; the error names the index that rejected the write in its
  \<open>keyPattern\<close>.
\<close>

definition duplicate_key :: "collection \<Rightarrow> user \<Rightarrow> error option" where
  "duplicate_key others u =
     (if list_ex (\<lambda>v. email v = email u) others then Some (DuplicateKey ''email'')
      else if verificationToken u \<noteq> None \<and>
              list_ex (\<lambda>v. verificationToken v = verificationToken u) others
      then Some (DuplicateKey ''verificationToken'')
      else None)"

fun find_from :: "(user \<Rightarrow> bool) \<Rightarrow> nat \<Rightarrow> collection \<Rightarrow> document option" where
  "find_from P i [] = None"
| "find_from P i (u # us) =
     (if P u then Some \<lparr>doc = u, stored_at = Some i, modifiedPaths = []\<rparr>
      else find_from P (Suc i) us)"

text \<open>A query on \<open>email\<close> is cast by the schema's setters, as a stored value is.\<close>

definition findOne_email :: "collection \<Rightarrow> string \<Rightarrow> document option" where
  "findOne_email db em = find_from (\<lambda>u. email u = trim (toLowerCase em)) 0 db"

definition findOne_verificationToken :: "collection \<Rightarrow> string \<Rightarrow> document option" where
  "findOne_verificationToken db tok = find_from (\<lambda>u. verificationToken u = Some tok) 0 db"

text \<open>An update writes the modified paths of the document over the stored one.\<close>

definition write_modified :: "string list \<Rightarrow> user \<Rightarrow> user \<Rightarrow> user" where
  "write_modified ps new old =
     \<lparr>fullName = (if ''fullName'' \<in> set ps then fullName new else fullName old),
      email = (if ''email'' \<in> set ps then email new else email old),
      password = (if ''password'' \<in> set ps then password new else password old),
      isVerified = (if ''isVerified'' \<in> set ps then isVerified new else isVerified old),
      verificationToken =
        (if ''verificationToken'' \<in> set ps then verificationToken new
         else verificationToken old),
      createdAt = (if ''createdAt'' \<in> set ps then createdAt new else createdAt old)\<rparr>"

text \<open>
  \<open>save\<close>: validation runs first (on the plain-text password of a new document, on
  the stored fields of a loaded one), then the pre-save hook, then the write: an insert
  for a new document, an update in place for a loaded one. A failure is the error that
  the \<open>await\<close> throws.
\<close>

definition save :: "env \<Rightarrow> collection \<Rightarrow> document \<Rightarrow> error + collection" where
  "save e db d =
     (case validate (doc d) of
        p # ps \<Rightarrow> Inl (ValidationError (p # ps))
      | [] \<Rightarrow>
          let d' = pre_save e d
          in (case stored_at d' of
                None \<Rightarrow>
                  (case duplicate_key db (doc d') of
                     Some err \<Rightarrow> Inl err
                   | None \<Rightarrow> Inr (db @ [doc d']))
              | Some i \<Rightarrow>
                  if i < length db
                  then let u' = write_modified (modifiedPaths d') (doc d') (db ! i)
                       in (case duplicate_key (take i db @ drop (Suc i) db) u' of
                             Some err \<Rightarrow> Inl err
                           | None \<Rightarrow> Inr (db[i := u']))
                  else Inl DocumentNotFoundError))"

text \<open>Assignment to a path of a document marks the path modified when the value changes.\<close>

definition set_isVerified :: "bool \<Rightarrow> document \<Rightarrow> document" where
  "set_isVerified b d =
     (if isVerified (doc d) = b then d
      else d\<lparr>doc := (doc d)\<lparr>isVerified := b\<rparr>,
             modifiedPaths := modifiedPaths d @ [''isVerified'']\<rparr>)"

definition set_verificationToken :: "string option \<Rightarrow> document \<Rightarrow> document" where
  "set_verificationToken t d =
     (if verificationToken (doc d) = t then d
      else d\<lparr>doc := (doc d)\<lparr>verificationToken := t\<rparr>,
             modifiedPaths := modifiedPaths d @ [''verificationToken'']\<rparr>)"

section \<open>The HTTP handlers (\<open>server.js\<close>)\<close>

text \<open>
  A response is \<open>res.status(n).json({msg})\<close>, \<open>res.status(n).send(text)\<close> or
  \<open>res.redirect(url)\<close>. A handler returns its response, the collection it leaves, the
  lines it writes to the console and the messages it hands to the mail transporter.
\<close>

datatype response = Json nat string | Send nat string | Redirect string

datatype log_line = ConsoleError string string | ConsoleLog string string

record outcome =
  response :: response
  users :: collection
  console :: "log_line list"
  outbox :: "mailOptions list"

definition reply :: "collection \<Rightarrow> response \<Rightarrow> outcome" where
  "reply db r = \<lparr>response = r, users = db, console = [], outbox = []\<rparr>"

record signup_request =
  req_fullName :: jsvalue
  req_email :: jsvalue
  req_password :: jsvalue

subsection \<open>\<open>POST /api/signup\<close>\<close>

text \<open>
  The two template literals of the handler hold no \<open>${...}\<close> substitution: the
  backslashes in them escape ordinary characters, so each literal is the constant text
  below, whatever the environment, the token and the user are.
\<close>

definition verificationLink :: "env \<Rightarrow> string \<Rightarrow> string" where
  \<open>verificationLink e tok =
     ''<span class="math-inline">{process.env.FRONTEND_URL}/thank-you-verify.html?token=</span>{verificationToken}''\<close>

definition mail_html :: "document \<Rightarrow> string \<Rightarrow> string" where
  \<open>mail_html user link =
     [CHR 0x0A] @
     ''                <p>Hello <span class="math-inline">{user.fullName},</p>'' @ [CHR 0x0A] @
     ''                <p>Thank you for signing up for Cloudcore!</p>'' @ [CHR 0x0A] @
     ''<p>Please verify your email address by clicking on the link below:</p>'' @ [CHR 0x0A] @
     ''<p><a href="{verificationLink}" style="background-color: #4c51bf; color: white; padding: 10px 20px; text-decoration: none; border-radius: 5px; display: inline-block;">Verify My Account</a></p>'' @ [CHR 0x0A] @
     ''<p>This link will expire in 24 hours.</p>'' @ [CHR 0x0A] @
     ''<p>If you did not sign up for Cloudcore, please ignore this email.</p>'' @ [CHR 0x0A] @
     ''<p>Best regards,<br>The Cloudcore Team</p>'' @ [CHR 0x0A]\<close>

text \<open>The \<open>catch\<close> block of the sign-up handler.\<close>

definition signup_catch :: "collection \<Rightarrow> error \<Rightarrow> outcome" where
  "signup_catch db err =
     \<lparr>response =
        (if name err = ''ValidationError'' then Json 400 (message err)
         else if code err = Some 11000 \<and> keyPattern err \<noteq> [] \<and> ''email'' \<in> set (keyPattern err)
         then Json 400 ''A user with this email already exists.''
         else Send 500 ''Server Error''),
      users = db,
      console = [ConsoleError ''Error during sign-up process:'' (message err)],
      outbox = []\<rparr>"

text \<open>
  The \<open>try\<close> block, for the strings of a request that passed the three checks. Other
  requests run between the lookup and the insert: the lookup reads the collection
  \<open>db\<close> and \<open>save\<close> writes to the collection \<open>db'\<close> found then.
\<close>

definition signup_try :: "env \<Rightarrow> collection \<Rightarrow> collection \<Rightarrow> string \<Rightarrow> string \<Rightarrow> string \<Rightarrow> outcome" where
  "signup_try e db db' fn em pw =
     (case findOne_email db em of
        Some existing \<Rightarrow> reply db' (Json 400 ''A user with this email already exists.'')
      | None \<Rightarrow>
          let tok = toString_hex (randomBytes e 32);
              user = new_User e fn em pw tok
          in (case save e db' user of
                Inl err \<Rightarrow> signup_catch db' err
              | Inr db'' \<Rightarrow>
                  let link = verificationLink e tok;
                      opts = \<lparr>mail_from = EMAIL_USER e, mail_to = email (doc user),
                              subject = ''Verify Your Cloudcore Account'',
                              html = mail_html user link\<rparr>
                  in \<lparr>response = Json 201 ''Sign up successful! Please check your email for verification.'',
                      users = db'',
                      console =
                        [case sendMail e opts of
                           Inl err \<Rightarrow> ConsoleError ''Error sending verification email:'' err
                         | Inr info \<Rightarrow> ConsoleLog ''Verification email sent:'' info],
                      outbox = [opts]\<rparr>))"

definition signup_interleaved :: "env \<Rightarrow> collection \<Rightarrow> collection \<Rightarrow> signup_request \<Rightarrow> outcome" where
  "signup_interleaved e db db' req =
     (if \<not> truthy (req_fullName req) \<or> \<not> truthy (req_email req) \<or> \<not> truthy (req_password req)
      then reply db' (Json 400 ''Please enter all fields.'')
      else (case (req_fullName req, req_email req, req_password req) of
              (Some fn, Some em, Some pw) \<Rightarrow>
                if length pw < 8
                then reply db' (Json 400 ''Password must be at least 8 characters long.'')
                else if \<not> regex_test email_pattern em
                then reply db' (Json 400 ''Please enter a valid email address.'')
                else signup_try e db db' fn em pw
            | _ \<Rightarrow> reply db' (Json 400 ''Please enter all fields.'')))"

text \<open>The handler when no other request runs in between.\<close>

definition signup :: "env \<Rightarrow> collection \<Rightarrow> signup_request \<Rightarrow> outcome" where
  "signup e db req = signup_interleaved e db db req"

subsection \<open>\<open>GET /api/verify-email\<close>\<close>

definition verify_email :: "env \<Rightarrow> collection \<Rightarrow> jsvalue \<Rightarrow> outcome" where
  "verify_email e db token =
     (if \<not> truthy token then reply db (Send 400 ''Verification token missing.'')
      else (case token of
              None \<Rightarrow> reply db (Send 400 ''Verification token missing.'')
            | Some tok \<Rightarrow>
                (case findOne_verificationToken db tok of
                   None \<Rightarrow> reply db (Send 400 ''Invalid or expired verification token.'')
                 | Some user \<Rightarrow>
                     if isVerified (doc user)
                     then reply db (Redirect (FRONTEND_URL e @ ''/thank-you-verified.html?status=already_verified''))
                     else let user1 = set_isVerified True user;
                              user2 = set_verificationToken None user1
                          in (case save e db user2 of
                                Inl err \<Rightarrow>
                                  \<lparr>response = Send 500 ''Server Error during email verification.'',
                                   users = db,
                                   console = [ConsoleError ''Error during email verification:'' (message err)],
                                   outbox = []\<rparr>
                              | Inr db' \<Rightarrow>
                                  reply db' (Redirect (FRONTEND_URL e @ ''/thank-you-verified.html?status=success''))))))"

section \<open>Invariants of the collection and sample data\<close>

text \<open>
  What the schema promises of the stored documents: one document for each email, one for
  each token that is present, and every document passes the validators.
\<close>

definition tokens :: "collection \<Rightarrow> string list" where
  "tokens db = concat (map (\<lambda>u. case verificationToken u of None \<Rightarrow> [] | Some t \<Rightarrow> [t]) db)"

definition consistent :: "collection \<Rightarrow> bool" where
  "consistent db =
     (distinct (map email db) \<and> distinct (tokens db) \<and> list_all (\<lambda>u. validate u = []) db)"

text \<open>The stored document after its verification.\<close>

definition verified :: "user \<Rightarrow> user" where
  "verified u = u\<lparr>isVerified := True, verificationToken := None\<rparr>"

text \<open>
  The document that a sign-up stores, and the message it hands to the transporter.
\<close>

definition created :: "env \<Rightarrow> string \<Rightarrow> string \<Rightarrow> string \<Rightarrow> user" where
  "created e fn em pw =
     \<lparr>fullName = trim fn, email = trim (toLowerCase em),
      password = hash e pw (genSalt e 10), isVerified = False,
      verificationToken = Some (toString_hex (randomBytes e 32)), createdAt = now e\<rparr>"

definition mail_sent :: "env \<Rightarrow> string \<Rightarrow> string \<Rightarrow> string \<Rightarrow> mailOptions" where
  "mail_sent e fn em pw =
     \<lparr>mail_from = EMAIL_USER e, mail_to = trim (toLowerCase em),
      subject = ''Verify Your Cloudcore Account'',
      html = mail_html (new_User e fn em pw (toString_hex (randomBytes e 32)))
               (verificationLink e (toString_hex (randomBytes e 32)))\<rparr>"

text \<open>
  A sample environment, whose mail provider refuses every message, and a sample stored
  document.
\<close>

definition sample_env :: env where
  "sample_env =
     \<lparr>FRONTEND_URL = ''http://127.0.0.1:5500'', EMAIL_USER = ''noreply@cloudcore.test'',
      entropy = (\<lambda>i. of_nat (7 * i + 3)), genSalt = (\<lambda>rounds. ''$2a$10$''),
      hash = (\<lambda>pw salt. salt @ rev pw), now = 1700000000,
      sendMail = (\<lambda>m. Inl ''ECONNREFUSED'')\<rparr>"

definition sample_user :: user where
  "sample_user =
     \<lparr>fullName = ''Bob'', email = ''bob@x.com'', password = ''$2a$10$drowssap'',
      isVerified = False, verificationToken = Some ''c0ffee'', createdAt = 1600000000\<rparr>"

section \<open>Lookups and unique indexes\<close>

lemma find_from_None: "find_from P k db = None \<longleftrightarrow> (\<forall>u \<in> set db. \<not> P u)"
  by (induction db arbitrary: k) auto

lemma find_from_append:
  "find_from P k (xs @ ys) =
     (case find_from P k xs of Some d \<Rightarrow> Some d | None \<Rightarrow> find_from P (k + length xs) ys)"
  by (induction xs arbitrary: k) (auto split: option.splits)

lemma find_from_at:
  assumes "i < length db" "P (db ! i)" "\<forall>u \<in> set (take i db). \<not> P u"
  shows "find_from P k db = Some \<lparr>doc = db ! i, stored_at = Some (k + i), modifiedPaths = []\<rparr>"
proof -
  have split: "db = take i db @ db ! i # drop (Suc i) db"
    using assms(1) by (simp add: id_take_nth_drop)
  have none: "find_from P k (take i db) = None"
    using assms(3) by (simp add: find_from_None)
  have "find_from P k (take i db @ db ! i # drop (Suc i) db) =
          Some \<lparr>doc = db ! i, stored_at = Some (k + i), modifiedPaths = []\<rparr>"
    using assms(1,2) none by (simp add: find_from_append min_def)
  with split show ?thesis by simp
qed

lemma tokens_append: "tokens (xs @ ys) = tokens xs @ tokens ys"
  by (simp add: tokens_def)

lemma tokens_Cons:
  "tokens (u # us) = (case verificationToken u of None \<Rightarrow> tokens us | Some t \<Rightarrow> t # tokens us)"
  by (simp add: tokens_def split: option.splits)

lemma set_tokens: "set (tokens db) = {t. \<exists>u \<in> set db. verificationToken u = Some t}"
proof (induction db)
  case Nil
  show ?case by (simp add: tokens_def)
next
  case (Cons u us)
  then show ?case by (auto simp: tokens_Cons split: option.splits)
qed

lemma token_elsewhere:
  assumes "distinct (tokens db)" "i < length db" "verificationToken (db ! i) = Some T"
  shows "\<forall>u \<in> set (take i db) \<union> set (drop (Suc i) db). verificationToken u \<noteq> Some T"
proof -
  have "db = take i db @ db ! i # drop (Suc i) db"
    using assms(2) by (simp add: id_take_nth_drop)
  then have "tokens db = tokens (take i db) @ T # tokens (drop (Suc i) db)"
    using assms(3) by (metis tokens_append tokens_Cons option.simps(5))
  with assms(1) have "T \<notin> set (tokens (take i db))" "T \<notin> set (tokens (drop (Suc i) db))"
    by auto
  then show ?thesis by (auto simp: set_tokens)
qed

lemma email_elsewhere:
  assumes "distinct (map email db)" "i < length db"
  shows "\<forall>u \<in> set (take i db) \<union> set (drop (Suc i) db). email u \<noteq> email (db ! i)"
proof -
  have "db = take i db @ db ! i # drop (Suc i) db"
    using assms(2) by (simp add: id_take_nth_drop)
  then have "map email db = map email (take i db) @ email (db ! i) # map email (drop (Suc i) db)"
    by (metis list.simps(9) map_append)
  with assms(1) have "email (db ! i) \<notin> set (map email (take i db))"
    "email (db ! i) \<notin> set (map email (drop (Suc i) db))"
    by auto
  then show ?thesis by (metis Un_iff image_eqI list.set_map)
qed

subsection \<open>A successful verification\<close>

lemma validate_fields:
  "fullName v = fullName u \<Longrightarrow> email v = email u \<Longrightarrow> password v = password u \<Longrightarrow>
   validate v = validate u"
  by (simp add: validate_def)

lemma consistent_nth: "consistent db \<Longrightarrow> i < length db \<Longrightarrow> validate (db ! i) = []"
  by (simp add: consistent_def list_all_length)

lemma findOne_token_at:
  assumes "consistent db" "i < length db" "verificationToken (db ! i) = Some T"
  shows "findOne_verificationToken db T =
           Some \<lparr>doc = db ! i, stored_at = Some i, modifiedPaths = []\<rparr>"
proof -
  have "distinct (tokens db)" using assms(1) by (simp add: consistent_def)
  then have "\<forall>u \<in> set (take i db). verificationToken u \<noteq> Some T"
    using token_elsewhere [of db i T] assms(2,3) by simp
  then show ?thesis
    unfolding findOne_verificationToken_def
    using find_from_at [of i db "\<lambda>u. verificationToken u = Some T" 0] assms(2,3) by simp
qed

lemma save_verified:
  assumes "consistent db" "i < length db" "\<not> isVerified (db ! i)"
    "verificationToken (db ! i) = Some T"
  shows "save e db (set_verificationToken None (set_isVerified True
             \<lparr>doc = db ! i, stored_at = Some i, modifiedPaths = []\<rparr>)) =
         Inr (db[i := verified (db ! i)])"
proof -
  let ?d = "\<lparr>doc = verified (db ! i), stored_at = Some i,
             modifiedPaths = [''isVerified'', ''verificationToken'']\<rparr>"
  have d: "set_verificationToken None (set_isVerified True
             \<lparr>doc = db ! i, stored_at = Some i, modifiedPaths = []\<rparr>) = ?d"
    using assms(3,4) by (simp add: set_verificationToken_def set_isVerified_def verified_def)
  have v: "validate (verified (db ! i)) = []"
    using consistent_nth [OF assms(1,2)] validate_fields [of "verified (db ! i)" "db ! i"]
    by (simp add: verified_def)
  have h: "pre_save e ?d = ?d"
    by (simp add: pre_save_def isModified_def)
  have w: "write_modified [''isVerified'', ''verificationToken''] (verified (db ! i)) (db ! i) =
             verified (db ! i)"
    by (simp add: write_modified_def verified_def)
  have "distinct (map email db)" using assms(1) by (simp add: consistent_def)
  then have "\<forall>u \<in> set (take i db) \<union> set (drop (Suc i) db). email u \<noteq> email (db ! i)"
    using email_elsewhere assms(2) by blast
  then have k: "duplicate_key (take i db @ drop (Suc i) db) (verified (db ! i)) = None"
    by (auto simp: duplicate_key_def list_ex_iff verified_def)
  show ?thesis
    unfolding d by (simp add: save_def v h w k assms(2))
qed

lemma verify_email_unverified:
  assumes "consistent db" "i < length db" "\<not> isVerified (db ! i)"
    "verificationToken (db ! i) = Some T" "T \<noteq> []"
  shows "verify_email e db (Some T) =
           reply (db[i := verified (db ! i)])
             (Redirect (FRONTEND_URL e @ ''/thank-you-verified.html?status=success''))"
  using assms(3,5)
  by (simp add: verify_email_def truthy_def findOne_token_at [OF assms(1,2,4)]
      save_verified [OF assms(1-4)])

section \<open>Verification\<close>

lemma consistent_sample: "consistent [sample_user]"
  by (simp add: consistent_def tokens_def sample_user_def validate_def email_pattern_def
      isLineTerminator_def)

text \<open>
  C1. In a consistent collection, take any document that is not verified and holds the
  token \<open>T\<close> (a non-empty string, as every token in a link is). The request
  \<open>GET /api/verify-email?token=T\<close> sets \<open>isVerified\<close> to true and removes
  \<open>verificationToken\<close> (the field becomes absent, not the empty string), writes the
  document back in place, and redirects to the success page of the configured frontend
  with \<open>status=success\<close>; nothing is logged and no mail is sent.
\<close>

theorem verify_email_marks_verified:
  assumes "consistent db" and "i < length db" and "\<not> isVerified (db ! i)"
    and "verificationToken (db ! i) = Some T" and "T \<noteq> []"
  shows "verify_email e db (Some T) =
           \<lparr>response = Redirect (FRONTEND_URL e @ ''/thank-you-verified.html?status=success''),
            users = db[i := (db ! i)\<lparr>isVerified := True, verificationToken := None\<rparr>],
            console = [], outbox = []\<rparr>"
  using verify_email_unverified [OF assms] by (simp add: reply_def verified_def)

theorem verify_email_marks_verified_witness:
  "consistent [sample_user] \<and> (0::nat) < length [sample_user] \<and>
   \<not> isVerified ([sample_user] ! 0) \<and> verificationToken ([sample_user] ! 0) = Some ''c0ffee'' \<and>
   ''c0ffee'' \<noteq> [] \<and>
   verify_email sample_env [sample_user] (Some ''c0ffee'') =
     \<lparr>response = Redirect ''http://127.0.0.1:5500/thank-you-verified.html?status=success'',
      users = [\<lparr>fullName = ''Bob'', email = ''bob@x.com'', password = ''$2a$10$drowssap'',
                isVerified = True, verificationToken = None, createdAt = 1600000000\<rparr>],
      console = [], outbox = []\<rparr>"
proof -
  have h1: "consistent [sample_user]" by (rule consistent_sample)
  have h2: "(0::nat) < length [sample_user]" by simp
  have h3: "\<not> isVerified ([sample_user] ! 0)" by (simp add: sample_user_def)
  have h4: "verificationToken ([sample_user] ! 0) = Some ''c0ffee''" by (simp add: sample_user_def)
  have h5: "''c0ffee'' \<noteq> []" by simp
  show ?thesis
    using h1 h2 h3 h4 h5 verify_email_marks_verified [OF h1 h2 h3 h4 h5, of sample_env]
    by (simp add: sample_user_def sample_env_def)
qed

subsection \<open>Missing, unknown and used tokens\<close>

lemma verify_email_missing:
  "\<not> truthy token \<Longrightarrow> verify_email e db token = reply db (Send 400 ''Verification token missing.'')"
  by (simp add: verify_email_def)

lemma verify_email_unknown:
  assumes "T \<noteq> []" "\<forall>u \<in> set db. verificationToken u \<noteq> Some T"
  shows "verify_email e db (Some T) =
           reply db (Send 400 ''Invalid or expired verification token.'')"
proof -
  have "findOne_verificationToken db T = None"
    using assms(2) by (simp add: findOne_verificationToken_def find_from_None)
  then show ?thesis using assms(1) by (simp add: verify_email_def truthy_def)
qed

lemma token_cleared:
  assumes "consistent db" "i < length db" "verificationToken (db ! i) = Some T"
  shows "\<forall>u \<in> set (db[i := verified (db ! i)]). verificationToken u \<noteq> Some T"
proof -
  have "distinct (tokens db)" using assms(1) by (simp add: consistent_def)
  then have others: "\<forall>u \<in> set (take i db) \<union> set (drop (Suc i) db). verificationToken u \<noteq> Some T"
    using token_elsewhere assms(2,3) by blast
  have "db[i := verified (db ! i)] = take i db @ verified (db ! i) # drop (Suc i) db"
    using assms(2) by (rule upd_conv_take_nth_drop)
  then have "set (db[i := verified (db ! i)]) =
      set (take i db) \<union> {verified (db ! i)} \<union> set (drop (Suc i) db)"
    by simp
  moreover have "verificationToken (verified (db ! i)) \<noteq> Some T"
    by (simp add: verified_def)
  ultimately show ?thesis using others by auto
qed

lemma verify_email_again:
  assumes "consistent db" "i < length db" "\<not> isVerified (db ! i)"
    "verificationToken (db ! i) = Some T" "T \<noteq> []"
  shows "verify_email e' (users (verify_email e db (Some T))) (Some T) =
           reply (db[i := verified (db ! i)])
             (Send 400 ''Invalid or expired verification token.'')"
proof -
  have "users (verify_email e db (Some T)) = db[i := verified (db ! i)]"
    using verify_email_unverified [OF assms] by (simp add: reply_def)
  then show ?thesis
    using verify_email_unknown [OF assms(5) token_cleared [OF assms(1,2,4)]] by simp
qed

subsection \<open>No expiry: the clock and the creation times\<close>

lemma pre_save_clock: "pre_save (e\<lparr>now := t\<rparr>) d = pre_save e d"
  by (simp add: pre_save_def)

lemma save_clock: "save (e\<lparr>now := t\<rparr>) db d = save e db d"
  by (simp add: save_def pre_save_clock split: list.splits)

lemma verify_email_clock: "verify_email (e\<lparr>now := t\<rparr>) db token = verify_email e db token"
  by (simp add: verify_email_def save_clock split: option.splits sum.splits)

lemma find_from_map:
  assumes "\<And>u. P (g u) = P u"
  shows "find_from P k (map g db) = map_option (\<lambda>d. d\<lparr>doc := g (doc d)\<rparr>) (find_from P k db)"
  by (induction db arbitrary: k) (simp_all add: assms)

lemma validate_createdAt: "validate (createdAt_update f u) = validate u"
  by (simp add: validate_def)

lemma duplicate_key_createdAt:
  "duplicate_key (map (createdAt_update f) others) (createdAt_update f' u) = duplicate_key others u"
  by (simp add: duplicate_key_def list_ex_iff)

lemma save_createdAt:
  assumes "''createdAt'' \<notin> set (modifiedPaths d)" "stored_at d = Some i"
  shows "save e (map (createdAt_update f) db) (d\<lparr>doc := createdAt_update f (doc d)\<rparr>) =
           map_sum id (map (createdAt_update f)) (save e db d)"
proof (cases "validate (doc d)")
  case (Cons p ps)
  then show ?thesis by (simp add: save_def validate_createdAt)
next
  case Nil
  define d' where "d' = pre_save e d"
  have p: "pre_save e (d\<lparr>doc := createdAt_update f (doc d)\<rparr>) = d'\<lparr>doc := createdAt_update f (doc d')\<rparr>"
    by (simp add: d'_def pre_save_def isModified_def)
  have s: "stored_at d' = Some i" and m: "modifiedPaths d' = modifiedPaths d"
    using assms(2) by (simp_all add: d'_def pre_save_def)
  show ?thesis
  proof (cases "i < length db")
    case False
    then show ?thesis
      by (simp add: save_def validate_createdAt Nil p s flip: d'_def)
  next
    case True
    define u' where "u' = write_modified (modifiedPaths d') (doc d') (db ! i)"
    have w: "write_modified (modifiedPaths d') (createdAt_update f (doc d'))
               (createdAt_update f (db ! i)) = createdAt_update f u'"
      using assms(1) True by (simp add: write_modified_def u'_def m)
    have k: "duplicate_key (take i (map (createdAt_update f) db) @ drop (Suc i) (map (createdAt_update f) db))
               (createdAt_update f u') = duplicate_key (take i db @ drop (Suc i) db) u'"
      using duplicate_key_createdAt [of f "take i db @ drop (Suc i) db" f u']
      by (simp add: take_map drop_map)
    show ?thesis
      using True
      by (simp add: save_def validate_createdAt Nil p s w k map_update Let_def
          flip: d'_def u'_def split: option.splits)
  qed
qed

lemma find_from_Some:
  "find_from P k db = Some d \<Longrightarrow>
   \<exists>i<length db. d = \<lparr>doc = db ! i, stored_at = Some (k + i), modifiedPaths = []\<rparr> \<and> P (db ! i)"
proof (induction db arbitrary: k)
  case Nil
  then show ?case by simp
next
  case (Cons u us)
  show ?case
  proof (cases "P u")
    case True
    with Cons.prems show ?thesis by auto
  next
    case False
    with Cons.prems have "find_from P (Suc k) us = Some d" by simp
    from Cons.IH [OF this] obtain i where
      "i < length us" "d = \<lparr>doc = us ! i, stored_at = Some (Suc k + i), modifiedPaths = []\<rparr>"
      "P (us ! i)" by blast
    then have "Suc i < length (u # us) \<and>
        d = \<lparr>doc = (u # us) ! Suc i, stored_at = Some (k + Suc i), modifiedPaths = []\<rparr> \<and>
        P ((u # us) ! Suc i)" by simp
    then show ?thesis by blast
  qed
qed

lemma setters_createdAt:
  "set_verificationToken t (set_isVerified b (d\<lparr>doc := createdAt_update f (doc d)\<rparr>)) =
     (set_verificationToken t (set_isVerified b d))
       \<lparr>doc := createdAt_update f (doc (set_verificationToken t (set_isVerified b d)))\<rparr>"
  by (simp add: set_verificationToken_def set_isVerified_def)

lemma setters_paths:
  "modifiedPaths d = [] \<Longrightarrow>
   ''createdAt'' \<notin> set (modifiedPaths (set_verificationToken t (set_isVerified b d)))"
  by (simp add: set_verificationToken_def set_isVerified_def)

lemma setters_stored_at:
  "stored_at (set_verificationToken t (set_isVerified b d)) = stored_at d"
  by (simp add: set_verificationToken_def set_isVerified_def)

lemma verify_email_createdAt:
  "verify_email e (map (createdAt_update f) db) token =
     (verify_email e db token)\<lparr>users := map (createdAt_update f) (users (verify_email e db token))\<rparr>"
proof (cases "truthy token")
  case False
  then show ?thesis by (simp add: verify_email_def reply_def)
next
  case True
  then obtain T where T: "token = Some T" by (cases token) (simp_all add: truthy_def)
  have f: "findOne_verificationToken (map (createdAt_update f) db) T =
      map_option (\<lambda>d. d\<lparr>doc := createdAt_update f (doc d)\<rparr>) (findOne_verificationToken db T)"
    unfolding findOne_verificationToken_def by (rule find_from_map) simp
  show ?thesis
  proof (cases "findOne_verificationToken db T")
    case None
    then show ?thesis using True by (simp add: verify_email_def T f reply_def)
  next
    case (Some d)
    define d2 where "d2 = set_verificationToken None (set_isVerified True d)"
    obtain i where i: "stored_at d = Some i" and m: "modifiedPaths d = []"
      using find_from_Some [OF Some [unfolded findOne_verificationToken_def]] by auto
    have s: "save e (map (createdAt_update f) db) (d2\<lparr>doc := createdAt_update f (doc d2)\<rparr>) =
        map_sum id (map (createdAt_update f)) (save e db d2)"
      unfolding d2_def
      by (rule save_createdAt [OF setters_paths [OF m]]) (simp add: setters_stored_at i)
    show ?thesis
      using True
      by (cases "save e db d2")
        (simp_all add: verify_email_def T f Some setters_createdAt s reply_def flip: d2_def)
  qed
qed

text \<open>
  The \<open>already_verified\<close> redirect is the answer for a document that is verified and
  still holds a token; the handler itself never leaves a document so.
\<close>

lemma verify_email_already_verified:
  assumes "consistent db" "i < length db" "isVerified (db ! i)"
    "verificationToken (db ! i) = Some T" "T \<noteq> []"
  shows "verify_email e db (Some T) =
           reply db (Redirect (FRONTEND_URL e @ ''/thank-you-verified.html?status=already_verified''))"
  using assms(3,5)
  by (simp add: verify_email_def truthy_def findOne_token_at [OF assms(1,2,4)])

lemma verify_email_already_verified_only:
  assumes "response (verify_email e db token) =
      Redirect (FRONTEND_URL e @ ''/thank-you-verified.html?status=already_verified'')"
  shows "\<exists>T u. token = Some T \<and> u \<in> set db \<and> isVerified u \<and> verificationToken u = Some T"
proof (cases "truthy token")
  case False
  with assms show ?thesis by (simp add: verify_email_def reply_def)
next
  case True
  then obtain T where T: "token = Some T" by (cases token) (simp_all add: truthy_def)
  show ?thesis
  proof (cases "findOne_verificationToken db T")
    case None
    with assms True show ?thesis by (simp add: verify_email_def T reply_def)
  next
    case (Some d)
    obtain i where i: "i < length db" "doc d = db ! i" "verificationToken (db ! i) = Some T"
      using find_from_Some [OF Some [unfolded findOne_verificationToken_def]] by auto
    have "isVerified (doc d)"
    proof (rule ccontr)
      assume "\<not> isVerified (doc d)"
      with assms True show False
        by (cases "save e db (set_verificationToken None (set_isVerified True d))")
          (simp_all add: verify_email_def T Some reply_def)
    qed
    with i T show ?thesis by (metis nth_mem)
  qed
qed

text \<open>
  C2, as stated: after a successful verification with the token \<open>T\<close>, the same
  request again redirects with \<open>status=already_verified\<close>. It does not: the first
  request removed the token, so the second finds no document.
\<close>

theorem verify_email_repeat_counterexample:
  "response (verify_email sample_env [sample_user] (Some ''c0ffee'')) =
     Redirect ''http://127.0.0.1:5500/thank-you-verified.html?status=success'' \<and>
   response (verify_email sample_env
       (users (verify_email sample_env [sample_user] (Some ''c0ffee''))) (Some ''c0ffee'')) \<noteq>
     Redirect ''http://127.0.0.1:5500/thank-you-verified.html?status=already_verified''"
proof -
  have h: "consistent [sample_user]" "(0::nat) < length [sample_user]"
    "\<not> isVerified ([sample_user] ! 0)" "verificationToken ([sample_user] ! 0) = Some ''c0ffee''"
    "''c0ffee'' \<noteq> []"
    using consistent_sample by (simp_all add: sample_user_def)
  have first: "response (verify_email sample_env [sample_user] (Some ''c0ffee'')) =
      Redirect (FRONTEND_URL sample_env @ ''/thank-you-verified.html?status=success'')"
    by (simp add: verify_email_unverified [OF h] reply_def)
  have second: "response (verify_email sample_env
       (users (verify_email sample_env [sample_user] (Some ''c0ffee''))) (Some ''c0ffee'')) =
      Send 400 ''Invalid or expired verification token.''"
    by (simp add: verify_email_again [OF h] reply_def)
  show ?thesis
    unfolding first second by (simp add: sample_env_def)
qed

text \<open>
  C2, amended: after a verification request with a valid, unused token \<open>T\<close> has
  succeeded, the same request again is answered 400 \<open>Invalid or expired verification
  token.\<close>; it is not a server error, it logs nothing, and the document stays verified
  with no token.
\<close>

theorem verify_email_repeat:
  assumes "consistent db" and "i < length db" and "\<not> isVerified (db ! i)"
    and "verificationToken (db ! i) = Some T" and "T \<noteq> []"
  shows "verify_email e (users (verify_email e db (Some T))) (Some T) =
           \<lparr>response = Send 400 ''Invalid or expired verification token.'',
            users = db[i := (db ! i)\<lparr>isVerified := True, verificationToken := None\<rparr>],
            console = [], outbox = []\<rparr>"
  using verify_email_again [OF assms] by (simp add: reply_def verified_def)

theorem verify_email_repeat_witness:
  "verify_email sample_env
      (users (verify_email sample_env [sample_user] (Some ''c0ffee''))) (Some ''c0ffee'') =
     \<lparr>response = Send 400 ''Invalid or expired verification token.'',
      users = [\<lparr>fullName = ''Bob'', email = ''bob@x.com'', password = ''$2a$10$drowssap'',
                isVerified = True, verificationToken = None, createdAt = 1600000000\<rparr>],
      console = [], outbox = []\<rparr>"
proof -
  have h1: "consistent [sample_user]" by (rule consistent_sample)
  have h2: "(0::nat) < length [sample_user]" by simp
  have h3: "\<not> isVerified ([sample_user] ! 0)" by (simp add: sample_user_def)
  have h4: "verificationToken ([sample_user] ! 0) = Some ''c0ffee''" by (simp add: sample_user_def)
  have h5: "''c0ffee'' \<noteq> []" by simp
  show ?thesis
    using verify_email_repeat [OF h1 h2 h3 h4 h5, of sample_env]
    by (simp add: sample_user_def)
qed

text \<open>
  C5. A request without a token (the parameter missing, or the empty string, which the
  handler treats alike) is answered 400 \<open>Verification token missing.\<close>. A request
  with a token that no document holds is answered 400 \<open>Invalid or expired
  verification token.\<close>; so is a request with a token that a successful verification
  removed before. No expiry is checked: the outcome depends neither on the clock nor on
  the creation times of the documents, which the handler only carries along.
\<close>

theorem verify_email_rejects:
  "(\<not> truthy token \<longrightarrow>
      verify_email e db token = reply db (Send 400 ''Verification token missing.'')) \<and>
   (T \<noteq> [] \<and> (\<forall>u \<in> set db. verificationToken u \<noteq> Some T) \<longrightarrow>
      verify_email e db (Some T) =
        reply db (Send 400 ''Invalid or expired verification token.'')) \<and>
   (consistent db \<and> i < length db \<and> \<not> isVerified (db ! i) \<and>
    verificationToken (db ! i) = Some T \<and> T \<noteq> [] \<longrightarrow>
      response (verify_email e' (users (verify_email e db (Some T))) (Some T)) =
        Send 400 ''Invalid or expired verification token.'') \<and>
   verify_email (e\<lparr>now := t\<rparr>) (map (createdAt_update f) db) token =
     (verify_email e db token)
       \<lparr>users := map (createdAt_update f) (users (verify_email e db token))\<rparr>"
  using verify_email_missing [of token e db] verify_email_unknown [of T db e]
    verify_email_again [of db i T e' e]
  by (simp add: verify_email_clock verify_email_createdAt reply_def)

theorem verify_email_rejects_witness:
  "verify_email sample_env [sample_user] None =
     reply [sample_user] (Send 400 ''Verification token missing.'') \<and>
   verify_email sample_env [sample_user] (Some []) =
     reply [sample_user] (Send 400 ''Verification token missing.'') \<and>
   verify_email sample_env [sample_user] (Some ''deadbeef'') =
     reply [sample_user] (Send 400 ''Invalid or expired verification token.'') \<and>
   response (verify_email sample_env
       (users (verify_email sample_env [sample_user] (Some ''c0ffee''))) (Some ''c0ffee'')) =
     Send 400 ''Invalid or expired verification token.''"
proof -
  have a: "\<not> truthy None" "\<not> truthy (Some [])" by (simp_all add: truthy_def)
  have b: "''deadbeef'' \<noteq> [] \<and> (\<forall>u \<in> set [sample_user]. verificationToken u \<noteq> Some ''deadbeef'')"
    by (simp add: sample_user_def)
  have c: "consistent [sample_user] \<and> (0::nat) < length [sample_user] \<and>
      \<not> isVerified ([sample_user] ! 0) \<and>
      verificationToken ([sample_user] ! 0) = Some ''c0ffee'' \<and> ''c0ffee'' \<noteq> []"
    using consistent_sample by (simp add: sample_user_def)
  have 1: "verify_email sample_env [sample_user] None =
      reply [sample_user] (Send 400 ''Verification token missing.'')"
    using a(1) verify_email_rejects [of None sample_env "[sample_user]"] by blast
  have 2: "verify_email sample_env [sample_user] (Some []) =
      reply [sample_user] (Send 400 ''Verification token missing.'')"
    using a(2) verify_email_rejects [of "Some []" sample_env "[sample_user]"] by blast
  have 3: "verify_email sample_env [sample_user] (Some ''deadbeef'') =
      reply [sample_user] (Send 400 ''Invalid or expired verification token.'')"
    using b verify_email_rejects [of _ sample_env "[sample_user]" "''deadbeef''"] by blast
  have 4: "response (verify_email sample_env
       (users (verify_email sample_env [sample_user] (Some ''c0ffee''))) (Some ''c0ffee'')) =
     Send 400 ''Invalid or expired verification token.''"
    using c verify_email_rejects [of _ sample_env "[sample_user]" "''c0ffee''" 0 sample_env] by blast
  show ?thesis by (rule conjI [OF 1 conjI [OF 2 conjI [OF 3 4]]])
qed

section \<open>What a save leaves alone\<close>

lemma pre_save_unmodified: "\<not> isModified d ''password'' \<Longrightarrow> pre_save e d = d"
  by (simp add: pre_save_def)

lemma pre_save_frame:
  "stored_at (pre_save e d) = stored_at d" "modifiedPaths (pre_save e d) = modifiedPaths d"
  by (simp_all add: pre_save_def Let_def)

lemma save_update_shape:
  assumes "stored_at d = Some i" "save e db d = Inr db'"
  shows "i < length db \<and>
         db' = db[i := write_modified (modifiedPaths d) (doc (pre_save e d)) (db ! i)]"
proof -
  have v: "validate (doc d) = []"
    using assms(2) by (cases "validate (doc d)") (simp_all add: save_def)
  let ?u = "write_modified (modifiedPaths d) (doc (pre_save e d)) (db ! i)"
  have s: "save e db d =
      (if i < length db
       then (case duplicate_key (take i db @ drop (Suc i) db) ?u of
               Some err \<Rightarrow> Inl err | None \<Rightarrow> Inr (db[i := ?u]))
       else Inl DocumentNotFoundError)"
    by (simp add: save_def v pre_save_frame assms(1) Let_def)
  have i: "i < length db"
    using assms(2) s by (cases "i < length db") simp_all
  have "db' = db[i := ?u]"
    using assms(2) s i by (cases "duplicate_key (take i db @ drop (Suc i) db) ?u") simp_all
  with i show ?thesis by simp
qed

lemma update_keeps:
  assumes "i < length db" "F u = F (db ! i)"
  shows "map F (db[i := u]) = map F db"
  using assms by (simp add: map_update list_update_same_conv)

lemma save_keeps_unmodified:
  assumes "stored_at d = Some i" "save e db d = Inr db'"
  shows "''password'' \<notin> set (modifiedPaths d) \<Longrightarrow> map password db' = map password db"
    and "''fullName'' \<notin> set (modifiedPaths d) \<Longrightarrow> map fullName db' = map fullName db"
    and "''email'' \<notin> set (modifiedPaths d) \<Longrightarrow> map email db' = map email db"
    and "''createdAt'' \<notin> set (modifiedPaths d) \<Longrightarrow> map createdAt db' = map createdAt db"
  using save_update_shape [OF assms]
  by (simp_all add: update_keeps write_modified_def)

lemma setters_modify:
  "modifiedPaths d = [] \<Longrightarrow>
   set (modifiedPaths (set_verificationToken t (set_isVerified b d))) \<subseteq>
     {''isVerified'', ''verificationToken''}"
  by (simp add: set_verificationToken_def set_isVerified_def)

lemma verify_email_users:
  "users (verify_email e db token) = db \<or>
   (\<exists>d i db'. stored_at d = Some i \<and> set (modifiedPaths d) \<subseteq> {''isVerified'', ''verificationToken''} \<and>
      save e db d = Inr db' \<and> users (verify_email e db token) = db')"
proof (cases "truthy token")
  case False
  then show ?thesis by (simp add: verify_email_def reply_def)
next
  case True
  then obtain T where T: "token = Some T" by (cases token) (simp_all add: truthy_def)
  show ?thesis
  proof (cases "findOne_verificationToken db T")
    case None
    then show ?thesis using True by (simp add: verify_email_def T reply_def)
  next
    case (Some d)
    define d2 where "d2 = set_verificationToken None (set_isVerified True d)"
    obtain i where i: "stored_at d = Some i" and m: "modifiedPaths d = []"
      using find_from_Some [OF Some [unfolded findOne_verificationToken_def]] by auto
    have s: "stored_at d2 = Some i" by (simp add: d2_def setters_stored_at i)
    have p: "set (modifiedPaths d2) \<subseteq> {''isVerified'', ''verificationToken''}"
      unfolding d2_def by (rule setters_modify [OF m])
    show ?thesis
    proof (cases "save e db d2")
      case (Inl err)
      then show ?thesis
        using True by (simp add: verify_email_def T Some reply_def flip: d2_def)
    next
      case (Inr db')
      have "users (verify_email e db token) = db \<or> users (verify_email e db token) = db'"
        using True Inr by (simp add: verify_email_def T Some reply_def flip: d2_def)
      then show ?thesis using s p Inr by blast
    qed
  qed
qed

lemma verify_email_frame:
  "map password (users (verify_email e db token)) = map password db"
  "map fullName (users (verify_email e db token)) = map fullName db"
  "map email (users (verify_email e db token)) = map email db"
  "map createdAt (users (verify_email e db token)) = map createdAt db"
proof -
  consider "users (verify_email e db token) = db"
    | d i where "stored_at d = Some i"
        "set (modifiedPaths d) \<subseteq> {''isVerified'', ''verificationToken''}"
        "save e db d = Inr (users (verify_email e db token))"
    using verify_email_users [of e db token] by metis
  then have "map password (users (verify_email e db token)) = map password db \<and>
      map fullName (users (verify_email e db token)) = map fullName db \<and>
      map email (users (verify_email e db token)) = map email db \<and>
      map createdAt (users (verify_email e db token)) = map createdAt db"
  proof cases
    case 1
    then show ?thesis by simp
  next
    case 2
    have "''password'' \<notin> set (modifiedPaths d)" "''fullName'' \<notin> set (modifiedPaths d)"
      "''email'' \<notin> set (modifiedPaths d)" "''createdAt'' \<notin> set (modifiedPaths d)"
      using 2(2) by auto
    then show ?thesis
      using save_keeps_unmodified [OF 2(1) 2(3)] by simp
  qed
  then show "map password (users (verify_email e db token)) = map password db"
    "map fullName (users (verify_email e db token)) = map fullName db"
    "map email (users (verify_email e db token)) = map email db"
    "map createdAt (users (verify_email e db token)) = map createdAt db"
    by simp_all
qed

text \<open>
  C6. The pre-save hook returns a document whose password was not modified as it is, and
  a save of a loaded document whose password was not modified leaves every stored
  password hash as it was. In particular the verification request, whatever its token
  and its outcome, changes no password hash, full name, email or creation time of any
  stored document: it writes \<open>isVerified\<close> and \<open>verificationToken\<close> only.
\<close>

theorem save_leaves_password:
  "(\<not> isModified d ''password'' \<longrightarrow> pre_save e d = d) \<and>
   (stored_at d = Some i \<and> \<not> isModified d ''password'' \<and> save e db d = Inr db' \<longrightarrow>
      map password db' = map password db) \<and>
   map password (users (verify_email e db token)) = map password db \<and>
   map fullName (users (verify_email e db token)) = map fullName db \<and>
   map email (users (verify_email e db token)) = map email db \<and>
   map createdAt (users (verify_email e db token)) = map createdAt db"
  using pre_save_unmodified [of d e] save_keeps_unmodified(1) [of d i e db db']
  by (simp add: verify_email_frame isModified_def)

theorem save_leaves_password_witness:
  "pre_save sample_env
      \<lparr>doc = verified sample_user, stored_at = Some 0,
       modifiedPaths = [''isVerified'', ''verificationToken'']\<rparr> =
     \<lparr>doc = verified sample_user, stored_at = Some 0,
      modifiedPaths = [''isVerified'', ''verificationToken'']\<rparr> \<and>
   map password [verified sample_user] = map password [sample_user] \<and>
   map password (users (verify_email sample_env [sample_user] (Some ''c0ffee''))) =
     [''$2a$10$drowssap''] \<and>
   map fullName (users (verify_email sample_env [sample_user] (Some ''c0ffee''))) = [''Bob''] \<and>
   map email (users (verify_email sample_env [sample_user] (Some ''c0ffee''))) = [''bob@x.com''] \<and>
   map createdAt (users (verify_email sample_env [sample_user] (Some ''c0ffee''))) = [1600000000]"
proof -
  let ?d = "\<lparr>doc = verified sample_user, stored_at = Some 0,
             modifiedPaths = [''isVerified'', ''verificationToken'']\<rparr>"
  have m: "\<not> isModified ?d ''password''" by (simp add: isModified_def)
  have "save sample_env [sample_user]
          (set_verificationToken None (set_isVerified True
             \<lparr>doc = [sample_user] ! 0, stored_at = Some 0, modifiedPaths = []\<rparr>)) =
        Inr ([sample_user][0 := verified ([sample_user] ! 0)])"
    by (rule save_verified [OF consistent_sample]) (simp_all add: sample_user_def)
  moreover have "set_verificationToken None (set_isVerified True
             \<lparr>doc = [sample_user] ! 0, stored_at = Some 0, modifiedPaths = []\<rparr>) = ?d"
    by (simp add: set_verificationToken_def set_isVerified_def verified_def sample_user_def)
  ultimately have s: "save sample_env [sample_user] ?d = Inr [verified sample_user]" by simp
  have t: "stored_at ?d = Some 0" by simp
  note th = save_leaves_password [of ?d sample_env 0 "[sample_user]" "[verified sample_user]"
      "Some ''c0ffee''"]
  have 1: "pre_save sample_env ?d = ?d" using th m by blast
  have 2: "map password [verified sample_user] = map password [sample_user]"
    using th m s t by blast
  have 3: "map password (users (verify_email sample_env [sample_user] (Some ''c0ffee''))) =
      [''$2a$10$drowssap'']"
    using th by (simp add: sample_user_def)
  have 4: "map fullName (users (verify_email sample_env [sample_user] (Some ''c0ffee''))) = [''Bob'']"
    using th by (simp add: sample_user_def)
  have 5: "map email (users (verify_email sample_env [sample_user] (Some ''c0ffee''))) = [''bob@x.com'']"
    using th by (simp add: sample_user_def)
  have 6: "map createdAt (users (verify_email sample_env [sample_user] (Some ''c0ffee''))) = [1600000000]"
    using th by (simp add: sample_user_def)
  show ?thesis by (rule conjI [OF 1 conjI [OF 2 conjI [OF 3 conjI [OF 4 conjI [OF 5 6]]]]])
qed

section \<open>Sign-up\<close>

subsection \<open>The token and the strings\<close>

lemma length_toString_hex: "length (toString_hex bs) = 2 * length bs"
  by (induction bs) (simp_all add: toString_hex_def hexByte_def)

lemma hexDigit_table: "list_all (\<lambda>n. isHexDigit (hexDigit n)) [0..<16]"
  by code_simp

lemma hexDigit_hex: "n < 16 \<Longrightarrow> isHexDigit (hexDigit n)"
  using hexDigit_table by (simp add: list_all_iff)

lemma hexByte_hex: "list_all isHexDigit (hexByte b)"
proof -
  have "unat b < 256" using unsigned_less [of b, where 'a = nat] by simp
  then have "unat b div 16 < 16" by simp
  moreover have "unat b mod 16 < 16" by simp
  ultimately show ?thesis by (simp add: hexByte_def hexDigit_hex)
qed

lemma toString_hex_hex: "list_all isHexDigit (toString_hex bs)"
  by (induction bs) (simp_all add: toString_hex_def hexByte_hex)

lemma token_shape:
  "length (toString_hex (randomBytes e 32)) = 64"
  "list_all isHexDigit (toString_hex (randomBytes e 32))"
  by (simp_all add: length_toString_hex toString_hex_hex randomBytes_def)

lemma trim_white: "list_all isWhiteSpace s \<Longrightarrow> trim s = []"
  by (auto simp: trim_def list_all_iff dest: set_dropWhileD)

lemma join_Cons: "join sep (x # xs) = x @ (if xs = [] then [] else sep @ join sep xs)"
  by (cases xs) simp_all

subsection \<open>The paths through the handler\<close>

lemma signup_checked:
  assumes "fn \<noteq> []" "em \<noteq> []" "8 \<le> length pw" "regex_test email_pattern em"
  shows "signup_interleaved e db db'
           \<lparr>req_fullName = Some fn, req_email = Some em, req_password = Some pw\<rparr> =
         signup_try e db db' fn em pw"
proof -
  have "pw \<noteq> []" using assms(3) by auto
  then show ?thesis
    using assms by (simp add: signup_interleaved_def truthy_def)
qed

lemma regex_nonempty: "regex_test email_pattern s \<Longrightarrow> s \<noteq> []"
  by (auto simp: email_pattern_def)

lemma validate_new_User:
  assumes "trim fn \<noteq> []" "regex_test email_pattern (trim (toLowerCase em))" "8 \<le> length pw"
  shows "validate (doc (new_User e fn em pw tok)) = []"
proof -
  have "pw \<noteq> []" using assms(3) by auto
  moreover have "trim (toLowerCase em) \<noteq> []" using assms(2) by (rule regex_nonempty)
  ultimately show ?thesis
    using assms by (simp add: validate_def new_User_def)
qed

lemma pre_save_new_User:
  "doc (pre_save e (new_User e fn em pw (toString_hex (randomBytes e 32)))) = created e fn em pw"
  "stored_at (pre_save e (new_User e fn em pw tok)) = None"
  by (simp_all add: pre_save_def new_User_def isModified_def created_def Let_def)

lemma save_new_User:
  assumes "validate (doc (new_User e fn em pw (toString_hex (randomBytes e 32)))) = []"
  shows "save e db (new_User e fn em pw (toString_hex (randomBytes e 32))) =
           (case duplicate_key db (created e fn em pw) of
              Some err \<Rightarrow> Inl err
            | None \<Rightarrow> Inr (db @ [created e fn em pw]))"
  by (simp add: save_def assms pre_save_new_User Let_def split: option.splits)

lemma save_new_User_invalid:
  assumes "validate (doc (new_User e fn em pw tok)) = p # ps"
  shows "save e db (new_User e fn em pw tok) = Inl (ValidationError (p # ps))"
  by (simp add: save_def assms)

lemma signup_try_found:
  "findOne_email db em = Some d \<Longrightarrow>
   signup_try e db db' fn em pw = reply db' (Json 400 ''A user with this email already exists.'')"
  by (simp add: signup_try_def)

lemma signup_try_failed:
  assumes "findOne_email db em = None"
    "save e db' (new_User e fn em pw (toString_hex (randomBytes e 32))) = Inl err"
  shows "signup_try e db db' fn em pw = signup_catch db' err"
  by (simp add: signup_try_def assms Let_def)

lemma signup_try_saved:
  assumes "findOne_email db em = None"
    "save e db' (new_User e fn em pw (toString_hex (randomBytes e 32))) = Inr db''"
  shows "signup_try e db db' fn em pw =
           \<lparr>response = Json 201 ''Sign up successful! Please check your email for verification.'',
            users = db'',
            console =
              [case sendMail e (mail_sent e fn em pw) of
                 Inl err \<Rightarrow> ConsoleError ''Error sending verification email:'' err
               | Inr info \<Rightarrow> ConsoleLog ''Verification email sent:'' info],
            outbox = [mail_sent e fn em pw]\<rparr>"
proof -
  have "email (doc (new_User e fn em pw (toString_hex (randomBytes e 32)))) =
      trim (toLowerCase em)"
    by (simp add: new_User_def)
  then show ?thesis
    by (simp add: signup_try_def assms Let_def mail_sent_def)
qed

lemma duplicate_key_none:
  assumes "\<forall>v \<in> set db. email v \<noteq> email u" "\<forall>v \<in> set db. verificationToken v \<noteq> verificationToken u"
  shows "duplicate_key db u = None"
  using assms by (simp add: duplicate_key_def list_ex_iff)

lemma duplicate_key_email:
  assumes "v \<in> set db" "email v = email u"
  shows "duplicate_key db u = Some (DuplicateKey ''email'')"
  using assms by (auto simp: duplicate_key_def list_ex_iff)

lemma findOne_email_None:
  "findOne_email db em = None \<longleftrightarrow> (\<forall>v \<in> set db. email v \<noteq> trim (toLowerCase em))"
  by (simp add: findOne_email_def find_from_None)

lemma findOne_email_new:
  assumes "findOne_email db em = None" "email u = trim (toLowerCase em)"
  shows "findOne_email (db @ [u]) em =
           Some \<lparr>doc = u, stored_at = Some (length db), modifiedPaths = []\<rparr>"
  using assms by (simp add: findOne_email_def find_from_append)

subsection \<open>The answer of the mail provider\<close>

lemma env_sendMail:
  "randomBytes (e\<lparr>sendMail := m\<rparr>) n = randomBytes e n"
  "new_User (e\<lparr>sendMail := m\<rparr>) fn em pw tok = new_User e fn em pw tok"
  "pre_save (e\<lparr>sendMail := m\<rparr>) d = pre_save e d"
  "verificationLink (e\<lparr>sendMail := m\<rparr>) tok = verificationLink e tok"
  by (simp_all add: randomBytes_def new_User_def pre_save_def verificationLink_def)

lemma save_sendMail: "save (e\<lparr>sendMail := m\<rparr>) db d = save e db d"
  by (simp add: save_def env_sendMail split: list.splits)

lemma mail_sent_sendMail: "mail_sent (e\<lparr>sendMail := m\<rparr>) fn em pw = mail_sent e fn em pw"
  by (simp add: mail_sent_def env_sendMail)

lemma signup_saved:
  assumes "fn \<noteq> []" "em \<noteq> []" "8 \<le> length pw" "regex_test email_pattern em"
    "findOne_email db em = None"
    "save e db' (new_User e fn em pw (toString_hex (randomBytes e 32))) = Inr db''"
  shows "signup_interleaved e db db'
           \<lparr>req_fullName = Some fn, req_email = Some em, req_password = Some pw\<rparr> =
         \<lparr>response = Json 201 ''Sign up successful! Please check your email for verification.'',
          users = db'',
          console =
            [case sendMail e (mail_sent e fn em pw) of
               Inl err \<Rightarrow> ConsoleError ''Error sending verification email:'' err
             | Inr info \<Rightarrow> ConsoleLog ''Verification email sent:'' info],
          outbox = [mail_sent e fn em pw]\<rparr>"
  by (simp only: signup_checked [OF assms(1-4)] signup_try_saved [OF assms(5,6)])

text \<open>
  C7. Take a sign-up request that passes the checks of the handler, whose lookup finds no
  user and whose insert succeeds. Whatever the mail provider answers, the response is
  201 with the confirmation message and the collection is the one the insert left; the
  provider's answer appears on the console only: an error as one \<open>console.error\<close>
  line.
\<close>

theorem signup_ignores_mail_failure:
  assumes "fn \<noteq> []" and "em \<noteq> []" and "8 \<le> length pw" and "regex_test email_pattern em"
    and "findOne_email db em = None"
    and "save e db' (new_User e fn em pw (toString_hex (randomBytes e 32))) = Inr db''"
  shows "signup_interleaved (e\<lparr>sendMail := m\<rparr>) db db'
           \<lparr>req_fullName = Some fn, req_email = Some em, req_password = Some pw\<rparr> =
         \<lparr>response = Json 201 ''Sign up successful! Please check your email for verification.'',
          users = db'',
          console =
            [case m (mail_sent e fn em pw) of
               Inl err \<Rightarrow> ConsoleError ''Error sending verification email:'' err
             | Inr info \<Rightarrow> ConsoleLog ''Verification email sent:'' info],
          outbox = [mail_sent e fn em pw]\<rparr>"
proof -
  have "save (e\<lparr>sendMail := m\<rparr>) db'
          (new_User (e\<lparr>sendMail := m\<rparr>) fn em pw
             (toString_hex (randomBytes (e\<lparr>sendMail := m\<rparr>) 32))) = Inr db''"
    using assms(6) by (simp add: save_sendMail env_sendMail)
  from signup_saved [OF assms(1-5) this] show ?thesis
    by (simp add: mail_sent_sendMail)
qed

lemma sample_strings:
  "trim ''Ann'' = ''Ann''" "trim (toLowerCase ''ann@x.com'') = ''ann@x.com''"
  "regex_test email_pattern ''ann@x.com''"
  by (simp_all add: trim_def toLowerCase_def lowerChar_def isWhiteSpace_def email_pattern_def
      isLineTerminator_def)

lemma sample_save:
  assumes "8 \<le> length pw"
  shows "save sample_env [] (new_User sample_env ''Ann'' ''ann@x.com'' pw
       (toString_hex (randomBytes sample_env 32))) =
     Inr [created sample_env ''Ann'' ''ann@x.com'' pw]"
proof -
  have "validate (doc (new_User sample_env ''Ann'' ''ann@x.com'' pw
       (toString_hex (randomBytes sample_env 32)))) = []"
    by (rule validate_new_User) (simp_all add: sample_strings assms del: regex_test.simps)
  then show ?thesis
    by (simp add: save_new_User duplicate_key_def)
qed

theorem signup_ignores_mail_failure_witness:
  "signup_interleaved (sample_env\<lparr>sendMail := \<lambda>m. Inl ''ECONNREFUSED''\<rparr>) [] []
      \<lparr>req_fullName = Some ''Ann'', req_email = Some ''ann@x.com'',
       req_password = Some ''longenough''\<rparr> =
     \<lparr>response = Json 201 ''Sign up successful! Please check your email for verification.'',
      users = [created sample_env ''Ann'' ''ann@x.com'' ''longenough''],
      console = [ConsoleError ''Error sending verification email:'' ''ECONNREFUSED''],
      outbox = [mail_sent sample_env ''Ann'' ''ann@x.com'' ''longenough'']\<rparr>"
proof -
  have h: "''Ann'' \<noteq> []" "''ann@x.com'' \<noteq> []" "8 \<le> length ''longenough''"
    "regex_test email_pattern ''ann@x.com''" "findOne_email [] ''ann@x.com'' = None"
    by (simp_all add: sample_strings findOne_email_def del: regex_test.simps)
  show ?thesis
    using signup_ignores_mail_failure [OF h sample_save [OF h(3)], of "\<lambda>m. Inl ''ECONNREFUSED''"]
    by simp
qed

text \<open>
  C9. With a full name and an email present, a password of 7 characters is rejected with
  400 \<open>Password must be at least 8 characters long.\<close> and nothing is stored. A
  password of 8 characters passes the length check: the handler goes on to the email
  check and, for an email of the right shape, to the lookup and the insert; when the
  rest of the input is valid too the request is accepted with 201.
\<close>

theorem signup_password_boundary:
  assumes "fn \<noteq> []" and "em \<noteq> []"
  shows "(length pw = 7 \<longrightarrow>
            signup_interleaved e db db'
              \<lparr>req_fullName = Some fn, req_email = Some em, req_password = Some pw\<rparr> =
            reply db' (Json 400 ''Password must be at least 8 characters long.'')) \<and>
         (length pw = 8 \<longrightarrow>
            signup_interleaved e db db'
              \<lparr>req_fullName = Some fn, req_email = Some em, req_password = Some pw\<rparr> =
            (if \<not> regex_test email_pattern em
             then reply db' (Json 400 ''Please enter a valid email address.'')
             else signup_try e db db' fn em pw)) \<and>
         (length pw = 8 \<and> regex_test email_pattern em \<and> findOne_email db em = None \<and>
          save e db' (new_User e fn em pw (toString_hex (randomBytes e 32))) = Inr db'' \<longrightarrow>
            response (signup_interleaved e db db'
              \<lparr>req_fullName = Some fn, req_email = Some em, req_password = Some pw\<rparr>) =
            Json 201 ''Sign up successful! Please check your email for verification.'')"
proof (intro conjI impI)
  assume "length pw = 7"
  then have "pw \<noteq> []" "length pw < 8" by auto
  then show "signup_interleaved e db db'
              \<lparr>req_fullName = Some fn, req_email = Some em, req_password = Some pw\<rparr> =
            reply db' (Json 400 ''Password must be at least 8 characters long.'')"
    using assms by (simp add: signup_interleaved_def truthy_def)
next
  assume "length pw = 8"
  then have "pw \<noteq> []" "\<not> length pw < 8" by auto
  then show "signup_interleaved e db db'
              \<lparr>req_fullName = Some fn, req_email = Some em, req_password = Some pw\<rparr> =
            (if \<not> regex_test email_pattern em
             then reply db' (Json 400 ''Please enter a valid email address.'')
             else signup_try e db db' fn em pw)"
    using assms by (simp add: signup_interleaved_def truthy_def)
next
  assume a: "length pw = 8 \<and> regex_test email_pattern em \<and> findOne_email db em = None \<and>
          save e db' (new_User e fn em pw (toString_hex (randomBytes e 32))) = Inr db''"
  then have "8 \<le> length pw" by simp
  from signup_saved [OF assms this, of db e db' db''] a
  show "response (signup_interleaved e db db'
              \<lparr>req_fullName = Some fn, req_email = Some em, req_password = Some pw\<rparr>) =
            Json 201 ''Sign up successful! Please check your email for verification.''"
    by simp
qed

theorem signup_password_boundary_witness:
  "signup_interleaved sample_env [] []
      \<lparr>req_fullName = Some ''Ann'', req_email = Some ''ann@x.com'',
       req_password = Some ''1234567''\<rparr> =
     reply [] (Json 400 ''Password must be at least 8 characters long.'') \<and>
   signup_interleaved sample_env [] []
      \<lparr>req_fullName = Some ''Ann'', req_email = Some ''ann@x.com'',
       req_password = Some ''12345678''\<rparr> =
     signup_try sample_env [] [] ''Ann'' ''ann@x.com'' ''12345678'' \<and>
   response (signup_interleaved sample_env [] []
      \<lparr>req_fullName = Some ''Ann'', req_email = Some ''ann@x.com'',
       req_password = Some ''12345678''\<rparr>) =
     Json 201 ''Sign up successful! Please check your email for verification.''"
proof -
  have h: "''Ann'' \<noteq> []" "''ann@x.com'' \<noteq> []" by simp_all
  have 1: "length ''1234567'' = 7" by simp
  have 2: "length ''12345678'' = 8" by simp
  have 3: "findOne_email [] ''ann@x.com'' = None" by (simp add: findOne_email_def)
  have 4: "save sample_env [] (new_User sample_env ''Ann'' ''ann@x.com'' ''12345678''
       (toString_hex (randomBytes sample_env 32))) =
     Inr [created sample_env ''Ann'' ''ann@x.com'' ''12345678'']"
    by (rule sample_save) simp
  note a = signup_password_boundary [OF h, of "''1234567''" sample_env "[]" "[]"]
  note b = signup_password_boundary [OF h, of "''12345678''" sample_env "[]" "[]"
        "[created sample_env ''Ann'' ''ann@x.com'' ''12345678'']"]
  have c1: "signup_interleaved sample_env [] []
      \<lparr>req_fullName = Some ''Ann'', req_email = Some ''ann@x.com'',
       req_password = Some ''1234567''\<rparr> =
     reply [] (Json 400 ''Password must be at least 8 characters long.'')"
    using a 1 by blast
  have c2: "signup_interleaved sample_env [] []
      \<lparr>req_fullName = Some ''Ann'', req_email = Some ''ann@x.com'',
       req_password = Some ''12345678''\<rparr> =
     signup_try sample_env [] [] ''Ann'' ''ann@x.com'' ''12345678''"
    using b 2 sample_strings(3) by (simp del: regex_test.simps)
  have c3: "response (signup_interleaved sample_env [] []
      \<lparr>req_fullName = Some ''Ann'', req_email = Some ''ann@x.com'',
       req_password = Some ''12345678''\<rparr>) =
     Json 201 ''Sign up successful! Please check your email for verification.''"
    using b 2 3 4 sample_strings(3) by blast
  show ?thesis by (rule conjI [OF c1 conjI [OF c2 c3]])
qed

subsection \<open>A blank full name\<close>

lemma validate_blank_name:
  assumes "trim fn = []" "8 \<le> length pw"
  shows "\<exists>errs. validate (doc (new_User e fn em pw tok)) =
           (''fullName'', ''Full name is required'') # errs \<and>
           (regex_test email_pattern (trim (toLowerCase em)) \<longrightarrow> errs = [])"
proof -
  have "pw \<noteq> []" "\<not> length pw < 8" using assms(2) by auto
  then show ?thesis
    using assms(1) regex_nonempty [of "trim (toLowerCase em)"]
    by (auto simp: validate_def new_User_def)
qed

lemma ValidationError_message:
  "\<exists>rest. message (ValidationError ((p, m) # errs)) =
      ''User validation failed: '' @ p @ '': '' @ m @ rest \<and> (errs = [] \<longrightarrow> rest = [])"
  by (simp add: ValidationError_def join_Cons)

lemma signup_blank_name:
  assumes "fn \<noteq> []" "list_all isWhiteSpace fn" "em \<noteq> []" "8 \<le> length pw"
    "regex_test email_pattern em" "findOne_email db em = None"
  shows "\<exists>rest.
           signup_interleaved e db db'
             \<lparr>req_fullName = Some fn, req_email = Some em, req_password = Some pw\<rparr> =
           \<lparr>response = Json 400 (''User validation failed: fullName: Full name is required'' @ rest),
            users = db',
            console = [ConsoleError ''Error during sign-up process:''
                         (''User validation failed: fullName: Full name is required'' @ rest)],
            outbox = []\<rparr> \<and>
           (regex_test email_pattern (trim (toLowerCase em)) \<longrightarrow> rest = [])"
proof -
  let ?tok = "toString_hex (randomBytes e 32)"
  obtain errs where v: "validate (doc (new_User e fn em pw ?tok)) =
      (''fullName'', ''Full name is required'') # errs"
    and e: "regex_test email_pattern (trim (toLowerCase em)) \<longrightarrow> errs = []"
    using validate_blank_name [OF trim_white [OF assms(2)] assms(4)] by blast
  let ?err = "ValidationError ((''fullName'', ''Full name is required'') # errs)"
  obtain rest where m: "message ?err =
      ''User validation failed: '' @ ''fullName'' @ '': '' @ ''Full name is required'' @ rest"
    and r: "errs = [] \<longrightarrow> rest = []"
    using ValidationError_message by blast
  have n: "name ?err = ''ValidationError''" by (simp add: ValidationError_def)
  have "signup_interleaved e db db'
          \<lparr>req_fullName = Some fn, req_email = Some em, req_password = Some pw\<rparr> =
        signup_catch db' ?err"
    by (simp only: signup_checked [OF assms(1,3,4,5)]
        signup_try_failed [OF assms(6) save_new_User_invalid [OF v]])
  then have "signup_interleaved e db db'
             \<lparr>req_fullName = Some fn, req_email = Some em, req_password = Some pw\<rparr> =
           \<lparr>response = Json 400 (''User validation failed: fullName: Full name is required'' @ rest),
            users = db',
            console = [ConsoleError ''Error during sign-up process:''
                         (''User validation failed: fullName: Full name is required'' @ rest)],
            outbox = []\<rparr>"
    using m n by (simp add: signup_catch_def)
  with e r show ?thesis by blast
qed

text \<open>
  C10. Take a sign-up request whose full name is not empty and is white space only, and
  which passes the other checks of the handler (email present and of the right shape,
  password of 8 characters or more, no user found with the email). It is answered 400,
  and the message is the validation message of the schema, which starts with the
  \<open>required\<close> error of \<open>fullName\<close> (and is just that when the trimmed email still
  has the right shape); it is not \<open>Please enter all fields.\<close>. Nothing is stored.
\<close>

theorem signup_blank_fullName:
  assumes "fn \<noteq> []" and "list_all isWhiteSpace fn" and "em \<noteq> []" and "8 \<le> length pw"
    and "regex_test email_pattern em" and "findOne_email db em = None"
  shows "\<exists>rest.
           signup_interleaved e db db'
             \<lparr>req_fullName = Some fn, req_email = Some em, req_password = Some pw\<rparr> =
           \<lparr>response = Json 400 (''User validation failed: fullName: Full name is required'' @ rest),
            users = db',
            console = [ConsoleError ''Error during sign-up process:''
                         (''User validation failed: fullName: Full name is required'' @ rest)],
            outbox = []\<rparr> \<and>
           (regex_test email_pattern (trim (toLowerCase em)) \<longrightarrow> rest = []) \<and>
           Json 400 (''User validation failed: fullName: Full name is required'' @ rest) \<noteq>
             Json 400 ''Please enter all fields.''"
  using signup_blank_name [OF assms, of e db'] by auto

theorem signup_blank_fullName_witness:
  "signup_interleaved sample_env [] []
      \<lparr>req_fullName = Some ''   '', req_email = Some ''ann@x.com'',
       req_password = Some ''longenough''\<rparr> =
     \<lparr>response = Json 400 ''User validation failed: fullName: Full name is required'',
      users = [],
      console = [ConsoleError ''Error during sign-up process:''
                   ''User validation failed: fullName: Full name is required''],
      outbox = []\<rparr>"
proof -
  have h: "''   '' \<noteq> []" "list_all isWhiteSpace ''   ''" "''ann@x.com'' \<noteq> []"
    "8 \<le> length ''longenough''" "regex_test email_pattern ''ann@x.com''"
    "findOne_email [] ''ann@x.com'' = None"
    by (simp_all add: sample_strings findOne_email_def isWhiteSpace_def del: regex_test.simps)
  have t: "regex_test email_pattern (trim (toLowerCase ''ann@x.com''))"
    by (simp add: sample_strings del: regex_test.simps)
  from signup_blank_fullName [OF h, of sample_env "[]"] t show ?thesis
    by auto
qed

subsection \<open>An email that is taken\<close>

lemma signup_found:
  assumes "fn \<noteq> []" "em \<noteq> []" "8 \<le> length pw" "regex_test email_pattern em"
    "findOne_email db em = Some d"
  shows "signup_interleaved e db db'
           \<lparr>req_fullName = Some fn, req_email = Some em, req_password = Some pw\<rparr> =
         reply db' (Json 400 ''A user with this email already exists.'')"
  by (simp only: signup_checked [OF assms(1-4)] signup_try_found [OF assms(5)])

lemma signup_catch_DuplicateKey:
  "signup_catch db (DuplicateKey ''email'') =
     \<lparr>response = Json 400 ''A user with this email already exists.'', users = db,
      console = [ConsoleError ''Error during sign-up process:''
                   ''E11000 duplicate key error index: email_1''],
      outbox = []\<rparr>"
  by (simp add: signup_catch_def DuplicateKey_def)

lemma signup_conflict:
  assumes "fn \<noteq> []" "em \<noteq> []" "8 \<le> length pw" "regex_test email_pattern em"
    "findOne_email db em = None"
    "trim fn \<noteq> []" "regex_test email_pattern (trim (toLowerCase em))"
    "v \<in> set db'" "email v = trim (toLowerCase em)"
  shows "signup_interleaved e db db'
           \<lparr>req_fullName = Some fn, req_email = Some em, req_password = Some pw\<rparr> =
         \<lparr>response = Json 400 ''A user with this email already exists.'', users = db',
          console = [ConsoleError ''Error during sign-up process:''
                       ''E11000 duplicate key error index: email_1''],
          outbox = []\<rparr>"
proof -
  let ?tok = "toString_hex (randomBytes e 32)"
  have v: "validate (doc (new_User e fn em pw ?tok)) = []"
    by (rule validate_new_User [OF assms(6,7,3)])
  have "email (created e fn em pw) = trim (toLowerCase em)" by (simp add: created_def)
  then have "duplicate_key db' (created e fn em pw) = Some (DuplicateKey ''email'')"
    using duplicate_key_email [OF assms(8)] assms(9) by simp
  then have "save e db' (new_User e fn em pw ?tok) = Inl (DuplicateKey ''email'')"
    by (simp add: save_new_User [OF v])
  from signup_try_failed [OF assms(5) this] show ?thesis
    by (simp only: signup_checked [OF assms(1-4)] signup_catch_DuplicateKey)
qed

lemma signup_catch_not_created: "response (signup_catch db err) \<noteq> Json 201 m"
  by (simp add: signup_catch_def)

lemma signup_created_shape:
  assumes "fn \<noteq> []" "em \<noteq> []" "8 \<le> length pw" "regex_test email_pattern em"
    "response (signup_interleaved e db db'
       \<lparr>req_fullName = Some fn, req_email = Some em, req_password = Some pw\<rparr>) = Json 201 m"
  shows "users (signup_interleaved e db db'
       \<lparr>req_fullName = Some fn, req_email = Some em, req_password = Some pw\<rparr>) =
     db' @ [created e fn em pw]"
proof -
  let ?tok = "toString_hex (randomBytes e 32)"
  have r: "response (signup_try e db db' fn em pw) = Json 201 m"
    using assms(5) by (simp only: signup_checked [OF assms(1-4)])
  have none: "findOne_email db em = None"
  proof (cases "findOne_email db em")
    case (Some d)
    with r show ?thesis by (simp add: signup_try_found reply_def)
  qed simp
  have ok: "\<exists>db''. save e db' (new_User e fn em pw ?tok) = Inr db''"
  proof (cases "save e db' (new_User e fn em pw ?tok)")
    case (Inl err)
    with r signup_catch_not_created show ?thesis
      by (simp add: signup_try_failed [OF none])
  qed simp
  then obtain db'' where s: "save e db' (new_User e fn em pw ?tok) = Inr db''" by blast
  have v: "validate (doc (new_User e fn em pw ?tok)) = []"
  proof (cases "validate (doc (new_User e fn em pw ?tok))")
    case (Cons p ps)
    with s show ?thesis by (simp add: save_new_User_invalid)
  qed simp
  have "db'' = db' @ [created e fn em pw]"
    using s by (simp add: save_new_User [OF v] split: option.splits)
  then show ?thesis
    by (simp add: signup_checked [OF assms(1-4)] signup_try_saved [OF none s])
qed

lemma signup_again:
  assumes "fn \<noteq> []" "em \<noteq> []" "8 \<le> length pw" "regex_test email_pattern em"
    "response (signup e db
       \<lparr>req_fullName = Some fn, req_email = Some em, req_password = Some pw\<rparr>) = Json 201 m"
    "fn2 \<noteq> []" "8 \<le> length pw2"
  shows "signup e2 (users (signup e db
       \<lparr>req_fullName = Some fn, req_email = Some em, req_password = Some pw\<rparr>))
       \<lparr>req_fullName = Some fn2, req_email = Some em, req_password = Some pw2\<rparr> =
     reply (db @ [created e fn em pw]) (Json 400 ''A user with this email already exists.'')"
proof -
  have u: "users (signup e db
       \<lparr>req_fullName = Some fn, req_email = Some em, req_password = Some pw\<rparr>) =
     db @ [created e fn em pw]"
    using signup_created_shape [OF assms(1-4), of e db db m] assms(5) by (simp add: signup_def)
  have "email (created e fn em pw) = trim (toLowerCase em)" by (simp add: created_def)
  then have "findOne_email (db @ [created e fn em pw]) em \<noteq> None"
    by (auto simp: findOne_email_None)
  then obtain d where "findOne_email (db @ [created e fn em pw]) em = Some d" by blast
  from signup_found [OF assms(6) assms(2) assms(7) assms(4) this]
  have "signup e2 (db @ [created e fn em pw])
       \<lparr>req_fullName = Some fn2, req_email = Some em, req_password = Some pw2\<rparr> =
     reply (db @ [created e fn em pw]) (Json 400 ''A user with this email already exists.'')"
    by (simp add: signup_def)
  then show ?thesis by (simp only: u)
qed

text \<open>
  C4. Take a sign-up request that passes the checks of the handler (so that the lookup
  runs). When the lookup finds a user with the email, the answer is 400 \<open>A user with
  this email already exists.\<close>. When the lookup misses, the new document passes the
  validators, and the collection holds a user with the email at the time of the insert
  (another request stored it in between), the unique index rejects the insert and the
  answer is the same 400. Hence a sign-up with the email of an earlier sign-up that
  was answered 201 is answered with that 400. In each case nothing is stored.
\<close>

theorem signup_duplicate_email:
  assumes "fn \<noteq> []" and "em \<noteq> []" and "8 \<le> length pw" and "regex_test email_pattern em"
  shows "(findOne_email db em \<noteq> None \<longrightarrow>
            signup_interleaved e db db'
              \<lparr>req_fullName = Some fn, req_email = Some em, req_password = Some pw\<rparr> =
            reply db' (Json 400 ''A user with this email already exists.'')) \<and>
         (findOne_email db em = None \<and> trim fn \<noteq> [] \<and>
          regex_test email_pattern (trim (toLowerCase em)) \<and>
          (\<exists>v \<in> set db'. email v = trim (toLowerCase em)) \<longrightarrow>
            response (signup_interleaved e db db'
              \<lparr>req_fullName = Some fn, req_email = Some em, req_password = Some pw\<rparr>) =
              Json 400 ''A user with this email already exists.'' \<and>
            users (signup_interleaved e db db'
              \<lparr>req_fullName = Some fn, req_email = Some em, req_password = Some pw\<rparr>) = db') \<and>
         (response (signup e db
              \<lparr>req_fullName = Some fn, req_email = Some em, req_password = Some pw\<rparr>) =
            Json 201 m \<longrightarrow>
            signup e2 (users (signup e db
                \<lparr>req_fullName = Some fn, req_email = Some em, req_password = Some pw\<rparr>))
              \<lparr>req_fullName = Some fn, req_email = Some em, req_password = Some pw\<rparr> =
            reply (db @ [created e fn em pw])
              (Json 400 ''A user with this email already exists.''))"
proof (intro conjI impI)
  assume "findOne_email db em \<noteq> None"
  then obtain d where "findOne_email db em = Some d" by blast
  from signup_found [OF assms this]
  show "signup_interleaved e db db'
              \<lparr>req_fullName = Some fn, req_email = Some em, req_password = Some pw\<rparr> =
            reply db' (Json 400 ''A user with this email already exists.'')" .
next
  assume a: "findOne_email db em = None \<and> trim fn \<noteq> [] \<and>
          regex_test email_pattern (trim (toLowerCase em)) \<and>
          (\<exists>v \<in> set db'. email v = trim (toLowerCase em))"
  then obtain v where v: "v \<in> set db'" "email v = trim (toLowerCase em)" by blast
  have c: "signup_interleaved e db db'
           \<lparr>req_fullName = Some fn, req_email = Some em, req_password = Some pw\<rparr> =
         \<lparr>response = Json 400 ''A user with this email already exists.'', users = db',
          console = [ConsoleError ''Error during sign-up process:''
                       ''E11000 duplicate key error index: email_1''],
          outbox = []\<rparr>"
    using signup_conflict [OF assms _ _ _ v] a by blast
  show "response (signup_interleaved e db db'
              \<lparr>req_fullName = Some fn, req_email = Some em, req_password = Some pw\<rparr>) =
              Json 400 ''A user with this email already exists.''"
    by (simp add: c)
  show "users (signup_interleaved e db db'
              \<lparr>req_fullName = Some fn, req_email = Some em, req_password = Some pw\<rparr>) = db'"
    by (simp add: c)
next
  assume "response (signup e db
              \<lparr>req_fullName = Some fn, req_email = Some em, req_password = Some pw\<rparr>) =
            Json 201 m"
  from signup_again [OF assms this assms(1,3)]
  show "signup e2 (users (signup e db
                \<lparr>req_fullName = Some fn, req_email = Some em, req_password = Some pw\<rparr>))
              \<lparr>req_fullName = Some fn, req_email = Some em, req_password = Some pw\<rparr> =
            reply (db @ [created e fn em pw])
              (Json 400 ''A user with this email already exists.'')" .
qed

lemma bob_strings:
  "trim ''Bob'' = ''Bob''" "trim (toLowerCase ''bob@x.com'') = ''bob@x.com''"
  "regex_test email_pattern ''bob@x.com''"
  by (simp_all add: trim_def toLowerCase_def lowerChar_def isWhiteSpace_def email_pattern_def
      isLineTerminator_def)

lemma sample_signup:
  "signup sample_env []
      \<lparr>req_fullName = Some ''Ann'', req_email = Some ''ann@x.com'',
       req_password = Some ''longenough''\<rparr> =
     \<lparr>response = Json 201 ''Sign up successful! Please check your email for verification.'',
      users = [created sample_env ''Ann'' ''ann@x.com'' ''longenough''],
      console = [ConsoleError ''Error sending verification email:'' ''ECONNREFUSED''],
      outbox = [mail_sent sample_env ''Ann'' ''ann@x.com'' ''longenough'']\<rparr>"
proof -
  have h: "''Ann'' \<noteq> []" "''ann@x.com'' \<noteq> []" "8 \<le> length ''longenough''"
    "regex_test email_pattern ''ann@x.com''" "findOne_email [] ''ann@x.com'' = None"
    by (simp_all add: sample_strings findOne_email_def del: regex_test.simps)
  have "sendMail sample_env (mail_sent sample_env ''Ann'' ''ann@x.com'' ''longenough'') =
      Inl ''ECONNREFUSED''"
    by (simp add: sample_env_def)
  with signup_saved [OF h sample_save [OF h(3)]] show ?thesis
    by (simp add: signup_def)
qed

theorem signup_duplicate_email_witness:
  "signup_interleaved sample_env [sample_user] [sample_user]
      \<lparr>req_fullName = Some ''Bob'', req_email = Some ''bob@x.com'',
       req_password = Some ''password1''\<rparr> =
     reply [sample_user] (Json 400 ''A user with this email already exists.'') \<and>
   response (signup_interleaved sample_env [] [sample_user]
      \<lparr>req_fullName = Some ''Bob'', req_email = Some ''bob@x.com'',
       req_password = Some ''password1''\<rparr>) =
     Json 400 ''A user with this email already exists.'' \<and>
   users (signup_interleaved sample_env [] [sample_user]
      \<lparr>req_fullName = Some ''Bob'', req_email = Some ''bob@x.com'',
       req_password = Some ''password1''\<rparr>) = [sample_user] \<and>
   signup sample_env (users (signup sample_env []
        \<lparr>req_fullName = Some ''Ann'', req_email = Some ''ann@x.com'',
         req_password = Some ''longenough''\<rparr>))
      \<lparr>req_fullName = Some ''Ann'', req_email = Some ''ann@x.com'',
       req_password = Some ''longenough''\<rparr> =
     reply [created sample_env ''Ann'' ''ann@x.com'' ''longenough'']
       (Json 400 ''A user with this email already exists.'')"
proof -
  have b: "''Bob'' \<noteq> []" "''bob@x.com'' \<noteq> []" "8 \<le> length ''password1''"
    "regex_test email_pattern ''bob@x.com''"
    by (simp_all add: bob_strings del: regex_test.simps)
  have a: "''Ann'' \<noteq> []" "''ann@x.com'' \<noteq> []" "8 \<le> length ''longenough''"
    "regex_test email_pattern ''ann@x.com''"
    by (simp_all add: sample_strings del: regex_test.simps)
  have f: "findOne_email [sample_user] ''bob@x.com'' \<noteq> None"
    by (simp add: findOne_email_def bob_strings sample_user_def)
  have g: "findOne_email [] ''bob@x.com'' = None \<and> trim ''Bob'' \<noteq> [] \<and>
      regex_test email_pattern (trim (toLowerCase ''bob@x.com'')) \<and>
      (\<exists>v \<in> set [sample_user]. email v = trim (toLowerCase ''bob@x.com''))"
    by (simp add: findOne_email_def bob_strings sample_user_def del: regex_test.simps)
  have s: "response (signup sample_env []
        \<lparr>req_fullName = Some ''Ann'', req_email = Some ''ann@x.com'',
         req_password = Some ''longenough''\<rparr>) =
      Json 201 ''Sign up successful! Please check your email for verification.''"
    by (simp add: sample_signup)
  note t1 = signup_duplicate_email [OF b, of "[sample_user]" sample_env "[sample_user]"]
  note t2 = signup_duplicate_email [OF b, of "[]" sample_env "[sample_user]"]
  note t3 = signup_duplicate_email [OF a, of "[]" sample_env "[]"
      "''Sign up successful! Please check your email for verification.''" sample_env]
  have 1: "signup_interleaved sample_env [sample_user] [sample_user]
      \<lparr>req_fullName = Some ''Bob'', req_email = Some ''bob@x.com'',
       req_password = Some ''password1''\<rparr> =
     reply [sample_user] (Json 400 ''A user with this email already exists.'')"
    using t1 f by blast
  have 2: "response (signup_interleaved sample_env [] [sample_user]
      \<lparr>req_fullName = Some ''Bob'', req_email = Some ''bob@x.com'',
       req_password = Some ''password1''\<rparr>) =
     Json 400 ''A user with this email already exists.'' \<and>
   users (signup_interleaved sample_env [] [sample_user]
      \<lparr>req_fullName = Some ''Bob'', req_email = Some ''bob@x.com'',
       req_password = Some ''password1''\<rparr>) = [sample_user]"
    using t2 g by blast
  have 3: "signup sample_env (users (signup sample_env []
        \<lparr>req_fullName = Some ''Ann'', req_email = Some ''ann@x.com'',
         req_password = Some ''longenough''\<rparr>))
      \<lparr>req_fullName = Some ''Ann'', req_email = Some ''ann@x.com'',
       req_password = Some ''longenough''\<rparr> =
     reply ([] @ [created sample_env ''Ann'' ''ann@x.com'' ''longenough''])
       (Json 400 ''A user with this email already exists.'')"
    using t3 s by blast
  show ?thesis using 1 2 3 by (simp only: append_Nil HOL.simp_thms)
qed

subsection \<open>The stored document\<close>

lemma signup_stored:
  assumes "fn \<noteq> []" "em \<noteq> []" "8 \<le> length pw" "regex_test email_pattern em"
    "findOne_email db em = None"
    "trim fn \<noteq> []" "regex_test email_pattern (trim (toLowerCase em))"
    "\<forall>v \<in> set db. verificationToken v \<noteq> Some (toString_hex (randomBytes e 32))"
  shows "signup e db \<lparr>req_fullName = Some fn, req_email = Some em, req_password = Some pw\<rparr> =
         \<lparr>response = Json 201 ''Sign up successful! Please check your email for verification.'',
          users = db @ [created e fn em pw],
          console =
            [case sendMail e (mail_sent e fn em pw) of
               Inl err \<Rightarrow> ConsoleError ''Error sending verification email:'' err
             | Inr info \<Rightarrow> ConsoleLog ''Verification email sent:'' info],
          outbox = [mail_sent e fn em pw]\<rparr>"
proof -
  let ?tok = "toString_hex (randomBytes e 32)"
  have v: "validate (doc (new_User e fn em pw ?tok)) = []"
    by (rule validate_new_User [OF assms(6,7,3)])
  have "\<forall>v \<in> set db. email v \<noteq> email (created e fn em pw)"
    using assms(5) by (simp add: findOne_email_None created_def)
  moreover have "\<forall>v \<in> set db. verificationToken v \<noteq> verificationToken (created e fn em pw)"
    using assms(8) by (simp add: created_def)
  ultimately have "duplicate_key db (created e fn em pw) = None"
    by (rule duplicate_key_none)
  then have "save e db (new_User e fn em pw ?tok) = Inr (db @ [created e fn em pw])"
    by (simp add: save_new_User [OF v])
  from signup_saved [OF assms(1-5) this] show ?thesis
    by (simp add: signup_def)
qed

lemma signup_stored_lookup:
  assumes "findOne_email db em = None"
  shows "findOne_email (db @ [created e fn em pw]) em =
           Some \<lparr>doc = created e fn em pw, stored_at = Some (length db), modifiedPaths = []\<rparr>"
  by (rule findOne_email_new [OF assms]) (simp add: created_def)

lemma padded_email:
  "regex_test email_pattern '' @b.c''" "trim (toLowerCase '' @b.c'') = ''@b.c''"
  "\<not> regex_test email_pattern ''@b.c''"
  by (simp_all add: trim_def toLowerCase_def lowerChar_def isWhiteSpace_def email_pattern_def
      isLineTerminator_def)

lemma signup_padded_email:
  "signup sample_env []
      \<lparr>req_fullName = Some ''Ann'', req_email = Some '' @b.c'',
       req_password = Some ''longenough''\<rparr> =
     \<lparr>response = Json 400 ''User validation failed: email: Please enter a valid email address'',
      users = [],
      console = [ConsoleError ''Error during sign-up process:''
                   ''User validation failed: email: Please enter a valid email address''],
      outbox = []\<rparr>"
proof -
  let ?tok = "toString_hex (randomBytes sample_env 32)"
  have h: "''Ann'' \<noteq> []" "'' @b.c'' \<noteq> []" "8 \<le> length ''longenough''"
    "regex_test email_pattern '' @b.c''"
    by (simp_all add: padded_email del: regex_test.simps)
  have f: "findOne_email [] '' @b.c'' = None" by (simp add: findOne_email_def)
  have v: "validate (doc (new_User sample_env ''Ann'' '' @b.c'' ''longenough'' ?tok)) =
      [(''email'', ''Please enter a valid email address'')]"
    by (simp add: validate_def new_User_def sample_strings padded_email del: regex_test.simps)
  show ?thesis
    unfolding signup_def
    by (simp only: signup_checked [OF h] signup_try_failed [OF f save_new_User_invalid [OF v]])
      (simp add: signup_catch_def ValidationError_def)
qed

lemma signup_token_taken:
  "signup sample_env
      [sample_user\<lparr>verificationToken := Some (toString_hex (randomBytes sample_env 32))\<rparr>]
      \<lparr>req_fullName = Some ''Ann'', req_email = Some ''ann@x.com'',
       req_password = Some ''longenough''\<rparr> =
     \<lparr>response = Send 500 ''Server Error'',
      users = [sample_user\<lparr>verificationToken := Some (toString_hex (randomBytes sample_env 32))\<rparr>],
      console = [ConsoleError ''Error during sign-up process:''
                   ''E11000 duplicate key error index: verificationToken_1''],
      outbox = []\<rparr>"
proof -
  let ?tok = "toString_hex (randomBytes sample_env 32)"
  let ?db = "[sample_user\<lparr>verificationToken := Some ?tok\<rparr>]"
  have h: "''Ann'' \<noteq> []" "''ann@x.com'' \<noteq> []" "8 \<le> length ''longenough''"
    "regex_test email_pattern ''ann@x.com''"
    by (simp_all add: sample_strings del: regex_test.simps)
  have f: "findOne_email ?db ''ann@x.com'' = None"
    by (simp add: findOne_email_def sample_strings sample_user_def)
  have v: "validate (doc (new_User sample_env ''Ann'' ''ann@x.com'' ''longenough'' ?tok)) = []"
    by (rule validate_new_User) (simp_all add: sample_strings del: regex_test.simps)
  have "duplicate_key ?db (created sample_env ''Ann'' ''ann@x.com'' ''longenough'') =
      Some (DuplicateKey ''verificationToken'')"
    by (simp add: duplicate_key_def created_def sample_strings sample_user_def)
  then have s: "save sample_env ?db (new_User sample_env ''Ann'' ''ann@x.com'' ''longenough'' ?tok) =
      Inl (DuplicateKey ''verificationToken'')"
    by (simp add: save_new_User [OF v])
  show ?thesis
    unfolding signup_def
    by (simp only: signup_checked [OF h] signup_try_failed [OF f s])
      (simp add: signup_catch_def DuplicateKey_def)
qed

text \<open>
  C3, as stated: every sign-up with the three fields present, a password of 8 characters
  or more, an email of the right shape and no user with that email is answered 201. A
  full name of three spaces passes the presence check and is rejected by the schema
  (400, nothing stored); so is an email that loses its shape when trimmed; and a fresh
  token that a stored document holds already is rejected by the unique index (500).
\<close>

theorem signup_valid_input_counterexample:
  "truthy (Some ''   '') \<and> truthy (Some ''ann@x.com'') \<and> truthy (Some ''longenough'') \<and>
   8 \<le> length ''longenough'' \<and> regex_test email_pattern ''ann@x.com'' \<and>
   findOne_email [] ''ann@x.com'' = None \<and>
   response (signup sample_env []
      \<lparr>req_fullName = Some ''   '', req_email = Some ''ann@x.com'',
       req_password = Some ''longenough''\<rparr>) \<noteq>
     Json 201 ''Sign up successful! Please check your email for verification.'' \<and>
   findOne_email (users (signup sample_env []
      \<lparr>req_fullName = Some ''   '', req_email = Some ''ann@x.com'',
       req_password = Some ''longenough''\<rparr>)) ''ann@x.com'' = None \<and>
   truthy (Some ''Ann'') \<and> truthy (Some '' @b.c'') \<and> regex_test email_pattern '' @b.c'' \<and>
   findOne_email [] '' @b.c'' = None \<and>
   response (signup sample_env []
      \<lparr>req_fullName = Some ''Ann'', req_email = Some '' @b.c'',
       req_password = Some ''longenough''\<rparr>) =
     Json 400 ''User validation failed: email: Please enter a valid email address'' \<and>
   findOne_email
      [sample_user\<lparr>verificationToken := Some (toString_hex (randomBytes sample_env 32))\<rparr>]
      ''ann@x.com'' = None \<and>
   response (signup sample_env
      [sample_user\<lparr>verificationToken := Some (toString_hex (randomBytes sample_env 32))\<rparr>]
      \<lparr>req_fullName = Some ''Ann'', req_email = Some ''ann@x.com'',
       req_password = Some ''longenough''\<rparr>) =
     Send 500 ''Server Error''"
proof -
  have h: "''   '' \<noteq> []" "list_all isWhiteSpace ''   ''" "''ann@x.com'' \<noteq> []"
    "8 \<le> length ''longenough''" "regex_test email_pattern ''ann@x.com''"
    "findOne_email [] ''ann@x.com'' = None"
    by (simp_all add: sample_strings findOne_email_def isWhiteSpace_def del: regex_test.simps)
  obtain rest where "signup sample_env []
      \<lparr>req_fullName = Some ''   '', req_email = Some ''ann@x.com'',
       req_password = Some ''longenough''\<rparr> =
     \<lparr>response = Json 400 (''User validation failed: fullName: Full name is required'' @ rest),
      users = [],
      console = [ConsoleError ''Error during sign-up process:''
                   (''User validation failed: fullName: Full name is required'' @ rest)],
      outbox = []\<rparr>"
    using signup_blank_name [OF h, of sample_env "[]"] unfolding signup_def by blast
  then have blank: "truthy (Some ''   '') \<and> truthy (Some ''ann@x.com'') \<and>
      truthy (Some ''longenough'') \<and>
      8 \<le> length ''longenough'' \<and> regex_test email_pattern ''ann@x.com'' \<and>
      findOne_email [] ''ann@x.com'' = None \<and>
      response (signup sample_env []
        \<lparr>req_fullName = Some ''   '', req_email = Some ''ann@x.com'',
         req_password = Some ''longenough''\<rparr>) \<noteq>
       Json 201 ''Sign up successful! Please check your email for verification.'' \<and>
      findOne_email (users (signup sample_env []
        \<lparr>req_fullName = Some ''   '', req_email = Some ''ann@x.com'',
         req_password = Some ''longenough''\<rparr>)) ''ann@x.com'' = None"
    using h by (simp add: truthy_def del: regex_test.simps)
  have padded: "truthy (Some ''Ann'') \<and> truthy (Some '' @b.c'') \<and>
      regex_test email_pattern '' @b.c'' \<and> findOne_email [] '' @b.c'' = None \<and>
      response (signup sample_env []
        \<lparr>req_fullName = Some ''Ann'', req_email = Some '' @b.c'',
         req_password = Some ''longenough''\<rparr>) =
       Json 400 ''User validation failed: email: Please enter a valid email address''"
    by (simp add: signup_padded_email padded_email truthy_def findOne_email_def
        del: regex_test.simps)
  have taken: "findOne_email
        [sample_user\<lparr>verificationToken := Some (toString_hex (randomBytes sample_env 32))\<rparr>]
        ''ann@x.com'' = None \<and>
      response (signup sample_env
        [sample_user\<lparr>verificationToken := Some (toString_hex (randomBytes sample_env 32))\<rparr>]
        \<lparr>req_fullName = Some ''Ann'', req_email = Some ''ann@x.com'',
         req_password = Some ''longenough''\<rparr>) =
       Send 500 ''Server Error''"
  proof
    show "findOne_email
        [sample_user\<lparr>verificationToken := Some (toString_hex (randomBytes sample_env 32))\<rparr>]
        ''ann@x.com'' = None"
      by (simp add: findOne_email_def sample_strings sample_user_def)
    show "response (signup sample_env
        [sample_user\<lparr>verificationToken := Some (toString_hex (randomBytes sample_env 32))\<rparr>]
        \<lparr>req_fullName = Some ''Ann'', req_email = Some ''ann@x.com'',
         req_password = Some ''longenough''\<rparr>) =
       Send 500 ''Server Error''"
      by (simp add: signup_token_taken)
  qed
  from blank padded taken show ?thesis by (simp only: conj_assoc simp_thms)
qed

text \<open>
  C3, amended. Take a sign-up with the three fields present, a password of 8 characters
  or more, an email of the right shape and no user with that email; let moreover the
  full name be more than white space, the email keep its shape once trimmed and
  lower-cased, and the fresh token be held by no stored document. The answer is 201,
  and a lookup by that email then returns a document that is not verified, holds a
  token of 64 hexadecimal digits (32 random bytes in hex) and has for password the
  bcrypt hash of the submitted one, which is not the plain text wherever bcrypt does not
  return its input.
\<close>

theorem signup_stores_user:
  assumes "fn \<noteq> []" and "em \<noteq> []" and "8 \<le> length pw" and "regex_test email_pattern em"
    and "findOne_email db em = None"
    and "trim fn \<noteq> []" and "regex_test email_pattern (trim (toLowerCase em))"
    and "\<forall>v \<in> set db. verificationToken v \<noteq> Some (toString_hex (randomBytes e 32))"
    and "hash e pw (genSalt e 10) \<noteq> pw"
  shows "response (signup e db
           \<lparr>req_fullName = Some fn, req_email = Some em, req_password = Some pw\<rparr>) =
           Json 201 ''Sign up successful! Please check your email for verification.'' \<and>
         (\<exists>d t. findOne_email (users (signup e db
                   \<lparr>req_fullName = Some fn, req_email = Some em, req_password = Some pw\<rparr>)) em =
                 Some d \<and>
            \<not> isVerified (doc d) \<and> verificationToken (doc d) = Some t \<and>
            t = toString_hex (randomBytes e 32) \<and> length t = 64 \<and> list_all isHexDigit t \<and>
            password (doc d) = hash e pw (genSalt e 10) \<and> password (doc d) \<noteq> pw)"
proof -
  let ?d = "\<lparr>doc = created e fn em pw, stored_at = Some (length db), modifiedPaths = []\<rparr>"
  have "findOne_email (users (signup e db
           \<lparr>req_fullName = Some fn, req_email = Some em, req_password = Some pw\<rparr>)) em = Some ?d"
    by (simp add: signup_stored [OF assms(1-8)] signup_stored_lookup [OF assms(5)])
  moreover have "\<not> isVerified (doc ?d)"
    "verificationToken (doc ?d) = Some (toString_hex (randomBytes e 32))"
    "password (doc ?d) = hash e pw (genSalt e 10)"
    by (simp_all add: created_def)
  moreover have "response (signup e db
           \<lparr>req_fullName = Some fn, req_email = Some em, req_password = Some pw\<rparr>) =
           Json 201 ''Sign up successful! Please check your email for verification.''"
    by (simp add: signup_stored [OF assms(1-8)])
  ultimately show ?thesis
    using assms(9) token_shape [of e] by (metis (no_types))
qed

theorem signup_stores_user_witness:
  "response (signup sample_env []
      \<lparr>req_fullName = Some ''Ann'', req_email = Some ''ann@x.com'',
       req_password = Some ''longenough''\<rparr>) =
     Json 201 ''Sign up successful! Please check your email for verification.'' \<and>
   (\<exists>d t. findOne_email (users (signup sample_env []
             \<lparr>req_fullName = Some ''Ann'', req_email = Some ''ann@x.com'',
              req_password = Some ''longenough''\<rparr>)) ''ann@x.com'' = Some d \<and>
      \<not> isVerified (doc d) \<and> verificationToken (doc d) = Some t \<and>
      t = toString_hex (randomBytes sample_env 32) \<and> length t = 64 \<and> list_all isHexDigit t \<and>
      password (doc d) = ''$2a$10$hguonegnol'' \<and> password (doc d) \<noteq> ''longenough'')"
proof -
  have h: "''Ann'' \<noteq> []" "''ann@x.com'' \<noteq> []" "8 \<le> length ''longenough''"
    "regex_test email_pattern ''ann@x.com''" "findOne_email [] ''ann@x.com'' = None"
    "trim ''Ann'' \<noteq> []" "regex_test email_pattern (trim (toLowerCase ''ann@x.com''))"
    "\<forall>v \<in> set []. verificationToken v \<noteq> Some (toString_hex (randomBytes sample_env 32))"
    by (simp_all add: sample_strings findOne_email_def del: regex_test.simps)
  have p: "hash sample_env ''longenough'' (genSalt sample_env 10) = ''$2a$10$hguonegnol''"
    by (simp add: sample_env_def)
  then have q: "hash sample_env ''longenough'' (genSalt sample_env 10) \<noteq> ''longenough''"
    by simp
  from signup_stores_user [OF h q] show ?thesis
    unfolding p .
qed

text \<open>
  C8 asks for the link in the email to be the \<open>FRONTEND_URL\<close> value, the
  verification path and the token as the value of the query parameter. The handler's
  template literals hold no substitution, so the link it builds is one fixed text for
  every environment and every token, and so is the HTML body of the mail. At the sample
  sign-up the link is not the frontend URL followed by the path and the token, and its
  text is the one shown.
\<close>

theorem verificationLink_ignores_token:
  \<open>verificationLink e tok = verificationLink e' tok' \<and>
   html (mail_sent e fn em pw) = html (mail_sent e' fn' em' pw') \<and>
   verificationLink sample_env (toString_hex (randomBytes sample_env 32)) \<noteq>
     FRONTEND_URL sample_env @ ''/thank-you-verify.html?token='' @
       toString_hex (randomBytes sample_env 32) \<and>
   verificationLink sample_env (toString_hex (randomBytes sample_env 32)) =
     ''<span class="math-inline">{process.env.FRONTEND_URL}/thank-you-verify.html?token=</span>{verificationToken}''\<close>
  by (simp add: verificationLink_def mail_sent_def mail_html_def sample_env_def)

section \<open>The handlers keep the collection consistent\<close>

text \<open>
  The empty collection is consistent, and both handlers keep it so (sign-up as long as a
  bcrypt hash has 8 characters or more, which its 60-character output has). The
  collections the theorems above speak of are therefore the ones the service reaches.
\<close>

lemma consistent_empty: "consistent []"
  by (simp add: consistent_def tokens_def)

lemma duplicate_key_NoneD:
  assumes "duplicate_key others u = None"
  shows "\<forall>v \<in> set others. email v \<noteq> email u"
    and "\<forall>v \<in> set others. verificationToken u = None \<or> verificationToken v \<noteq> verificationToken u"
  using assms by (auto simp: duplicate_key_def list_ex_iff split: if_splits)

lemma distinct_tokens_insert:
  assumes "distinct (tokens xs @ tokens ys)"
    "\<forall>v \<in> set (xs @ ys). verificationToken u = None \<or> verificationToken v \<noteq> verificationToken u"
  shows "distinct (tokens (xs @ u # ys))"
proof (cases "verificationToken u")
  case None
  then have "tokens (xs @ u # ys) = tokens xs @ tokens ys"
    by (simp add: tokens_append tokens_Cons)
  with assms(1) show ?thesis by simp
next
  case (Some t)
  then have "t \<notin> set (tokens xs)" "t \<notin> set (tokens ys)"
    using assms(2) by (auto simp: set_tokens)
  moreover have "tokens (xs @ u # ys) = tokens xs @ t # tokens ys"
    using Some by (simp add: tokens_append tokens_Cons)
  ultimately show ?thesis using assms(1) by auto
qed

lemma distinct_tokens_remove:
  "distinct (tokens (xs @ u # ys)) \<Longrightarrow> distinct (tokens xs @ tokens ys)"
  by (cases "verificationToken u") (auto simp: tokens_append tokens_Cons)

lemma consistent_append:
  assumes "consistent db" "validate u = []" "duplicate_key db u = None"
  shows "consistent (db @ [u])"
proof -
  have e: "email u \<notin> set (map email db)"
    using duplicate_key_NoneD(1) [OF assms(3)] by auto
  have "distinct (tokens db @ tokens [])"
    using assms(1) by (simp add: consistent_def tokens_def)
  then have "distinct (tokens (db @ u # []))"
    using duplicate_key_NoneD(2) [OF assms(3)] by (intro distinct_tokens_insert) simp_all
  then show ?thesis
    using assms(1,2) e by (simp add: consistent_def)
qed

lemma save_update_checked:
  assumes "stored_at d = Some i" "save e db d = Inr db'"
  shows "duplicate_key (take i db @ drop (Suc i) db)
           (write_modified (modifiedPaths d) (doc (pre_save e d)) (db ! i)) = None"
proof -
  have v: "validate (doc d) = []"
    using assms(2) by (cases "validate (doc d)") (simp_all add: save_def)
  let ?u = "write_modified (modifiedPaths d) (doc (pre_save e d)) (db ! i)"
  have s: "save e db d =
      (if i < length db
       then (case duplicate_key (take i db @ drop (Suc i) db) ?u of
               Some err \<Rightarrow> Inl err | None \<Rightarrow> Inr (db[i := ?u]))
       else Inl DocumentNotFoundError)"
    by (simp add: save_def v pre_save_frame assms(1) Let_def)
  show ?thesis
    using assms(2) s
    by (cases "i < length db"; cases "duplicate_key (take i db @ drop (Suc i) db) ?u") simp_all
qed

lemma save_update_consistent:
  assumes "consistent db" "stored_at d = Some i" "save e db d = Inr db'"
    "''fullName'' \<notin> set (modifiedPaths d)" "''email'' \<notin> set (modifiedPaths d)"
    "''password'' \<notin> set (modifiedPaths d)"
  shows "consistent db'"
proof -
  let ?u = "write_modified (modifiedPaths d) (doc (pre_save e d)) (db ! i)"
  have i: "i < length db" and db': "db' = db[i := ?u]"
    using save_update_shape [OF assms(2,3)] by simp_all
  have split: "db = take i db @ db ! i # drop (Suc i) db"
    using i by (simp add: id_take_nth_drop)
  have split': "db' = take i db @ ?u # drop (Suc i) db"
    unfolding db' using i by (rule upd_conv_take_nth_drop)
  have emails: "distinct (map email db')"
    using save_keeps_unmodified(3) [OF assms(2,3) assms(5)] assms(1)
    by (simp add: consistent_def)
  have "validate ?u = validate (db ! i)"
    using assms(4,5,6) by (intro validate_fields) (simp_all add: write_modified_def)
  then have "validate ?u = []" using consistent_nth [OF assms(1) i] by simp
  moreover have "list_all (\<lambda>u. validate u = []) (take i db)"
    "list_all (\<lambda>u. validate u = []) (drop (Suc i) db)"
    using assms(1) by (auto simp: consistent_def list_all_iff dest: in_set_takeD in_set_dropD)
  ultimately have valid: "list_all (\<lambda>u. validate u = []) db'"
    by (subst split') simp
  have "distinct (tokens (take i db @ db ! i # drop (Suc i) db))"
    using assms(1) split by (simp add: consistent_def)
  then have "distinct (tokens (take i db) @ tokens (drop (Suc i) db))"
    by (rule distinct_tokens_remove)
  then have "distinct (tokens (take i db @ ?u # drop (Suc i) db))"
    using duplicate_key_NoneD(2) [OF save_update_checked [OF assms(2,3)]]
    by (rule distinct_tokens_insert)
  then have "distinct (tokens db')" using split' by simp
  with emails valid show ?thesis by (simp add: consistent_def)
qed

lemma verify_email_consistent:
  assumes "consistent db"
  shows "consistent (users (verify_email e db token))"
proof -
  consider "users (verify_email e db token) = db"
    | d i where "stored_at d = Some i"
        "set (modifiedPaths d) \<subseteq> {''isVerified'', ''verificationToken''}"
        "save e db d = Inr (users (verify_email e db token))"
    using verify_email_users [of e db token] by metis
  then show ?thesis
  proof cases
    case 1
    with assms show ?thesis by simp
  next
    case 2
    have "''fullName'' \<notin> set (modifiedPaths d)" "''email'' \<notin> set (modifiedPaths d)"
      "''password'' \<notin> set (modifiedPaths d)"
      using 2(2) by auto
    then show ?thesis
      using save_update_consistent [OF assms 2(1) 2(3)] by simp
  qed
qed

lemma signup_users:
  "users (signup_interleaved e db db' req) = db' \<or>
   (\<exists>fn em pw. validate (doc (new_User e fn em pw (toString_hex (randomBytes e 32)))) = [] \<and>
      duplicate_key db' (created e fn em pw) = None \<and>
      users (signup_interleaved e db db' req) = db' @ [created e fn em pw])"
proof (cases "\<exists>fn em pw. req = \<lparr>req_fullName = Some fn, req_email = Some em, req_password = Some pw\<rparr> \<and>
    fn \<noteq> [] \<and> em \<noteq> [] \<and> 8 \<le> length pw \<and> regex_test email_pattern em")
  case False
  have "users (signup_interleaved e db db' req) = db'"
  proof (cases req)
    case (fields a b c)
    with False show ?thesis
      by (cases a; cases b; cases c)
        (auto simp: signup_interleaved_def truthy_def reply_def not_le)
  qed
  then show ?thesis by simp
next
  case True
  then obtain fn em pw where
    req: "req = \<lparr>req_fullName = Some fn, req_email = Some em, req_password = Some pw\<rparr>"
    and c: "fn \<noteq> []" "em \<noteq> []" "8 \<le> length pw" "regex_test email_pattern em"
    by blast
  let ?tok = "toString_hex (randomBytes e 32)"
  have t: "signup_interleaved e db db' req = signup_try e db db' fn em pw"
    unfolding req by (rule signup_checked [OF c])
  show ?thesis
  proof (cases "findOne_email db em")
    case (Some d)
    then show ?thesis by (simp add: t signup_try_found reply_def)
  next
    case None
    show ?thesis
    proof (cases "save e db' (new_User e fn em pw ?tok)")
      case (Inl err)
      then show ?thesis by (simp add: t signup_try_failed [OF None] signup_catch_def)
    next
      case (Inr db'')
      have v: "validate (doc (new_User e fn em pw ?tok)) = []"
      proof (cases "validate (doc (new_User e fn em pw ?tok))")
        case (Cons p ps)
        with Inr show ?thesis by (simp add: save_new_User_invalid)
      qed simp
      have "duplicate_key db' (created e fn em pw) = None \<and> db'' = db' @ [created e fn em pw]"
        using Inr by (simp add: save_new_User [OF v] split: option.splits)
      then show ?thesis
        using v by (auto simp: t signup_try_saved [OF None Inr])
    qed
  qed
qed

lemma validate_created:
  assumes "validate (doc (new_User e fn em pw tok)) = []" "8 \<le> length (hash e pw (genSalt e 10))"
  shows "validate (created e fn em pw) = []"
proof -
  have "hash e pw (genSalt e 10) \<noteq> []" using assms(2) by auto
  then show ?thesis
    using assms by (simp add: validate_def new_User_def created_def split: if_splits)
qed

lemma signup_consistent:
  assumes "consistent db'" "\<And>pw salt. 8 \<le> length (hash e pw salt)"
  shows "consistent (users (signup_interleaved e db db' req))"
  using signup_users [of e db db' req] assms
  by (auto intro!: consistent_append validate_created)

end
